theory Spec2Isabelle
  imports Complex_Main
begin

section \<open>Relational categorization task: genome decoding, trials and fitness\<close>

text \<open>
  The development embeds \<^verbatim>\<open>relcat/relcat.py\<close>. Python floats and numpy
  float64 values are idealised as \<^typ>\<open>real\<close>, except for the two module-level
  rescaling functions, which are modelled a second time with the float64 rounding of
  every operation; Python exceptions are values of \<open>py_error\<close>, carried on the
  left of a sum.
\<close>

subsection \<open>Errors\<close>

datatype py_error = IndexError | ZeroDivisionError | ValueError

definition bindE :: "'e + 'a \<Rightarrow> ('a \<Rightarrow> 'e + 'b) \<Rightarrow> 'e + 'b" where
  "bindE m f = (case m of Inl e \<Rightarrow> Inl e | Inr a \<Rightarrow> f a)"

text \<open>A Python \<^verbatim>\<open>for k in ...:\<close> loop whose body may raise: the state is threaded
  through the iterations and the first exception ends the loop.\<close>

fun forE :: "nat list \<Rightarrow> (nat \<Rightarrow> 's \<Rightarrow> 'e + 's) \<Rightarrow> 's \<Rightarrow> 'e + 's" where
  "forE [] body s = Inr s"
| "forE (k # ks) body s = bindE (body k s) (forE ks body)"

subsection \<open>Parameter rescaling (module-level functions)\<close>

text \<open>Python's float \<^verbatim>\<open>x % y\<close>: the remainder has the sign of the divisor;
  a zero divisor raises.\<close>

definition py_mod :: "real \<Rightarrow> real \<Rightarrow> py_error + real" where
  "py_mod x y = (if y = 0 then Inl ZeroDivisionError
                 else Inr (x - y * of_int \<lfloor>x / y\<rfloor>))"

text \<open>\<^verbatim>\<open>return bound - abs(value % (2 * bound) - bound)\<close>\<close>

definition periodic_boundary_conditions :: "real \<Rightarrow> real \<Rightarrow> py_error + real" where
  "periodic_boundary_conditions val bound =
     bindE (py_mod val (2 * bound)) (\<lambda>r. Inr (bound - \<bar>r - bound\<bar>))"

text \<open>
  \<^verbatim>\<open>scale = (max_param_value - min_param_value) / (max_search_value - min_search_value)
  bias = min_param_value - scale * min_search_value
  return scale * search_value + bias\<close>
\<close>

definition rescale_parameter ::
  "real \<Rightarrow> real \<Rightarrow> real \<Rightarrow> real \<Rightarrow> real \<Rightarrow> py_error + real" where
  "rescale_parameter search_value min_param_value max_param_value
                     min_search_value max_search_value =
     (if max_search_value - min_search_value = 0 then Inl ZeroDivisionError
      else let scale = (max_param_value - min_param_value)
                        / (max_search_value - min_search_value);
               bias = min_param_value - scale * min_search_value
           in Inr (scale * search_value + bias))"

text \<open>The same two functions on numpy arrays work elementwise; the scale and the bias
  of the rescaler are computed from Python floats before the array is touched, so a
  zero search range raises even on an empty array. (On an array numpy would yield nan
  rather than raise for a zero bound; the decoder only passes the bound 1.)\<close>

fun mapE :: "('a \<Rightarrow> 'e + 'b) \<Rightarrow> 'a list \<Rightarrow> 'e + 'b list" where
  "mapE f [] = Inr []"
| "mapE f (x # xs) = bindE (f x) (\<lambda>y. bindE (mapE f xs) (\<lambda>ys. Inr (y # ys)))"

definition periodic_boundary_conditions_array :: "real list \<Rightarrow> real \<Rightarrow> py_error + real list" where
  "periodic_boundary_conditions_array vals bound =
     mapE (\<lambda>v. periodic_boundary_conditions v bound) vals"

definition rescale_parameter_array ::
  "real list \<Rightarrow> real \<Rightarrow> real \<Rightarrow> real \<Rightarrow> real \<Rightarrow> py_error + real list" where
  "rescale_parameter_array search_value min_param_value max_param_value
                           min_search_value max_search_value =
     (if max_search_value - min_search_value = 0 then Inl ZeroDivisionError
      else let scale = (max_param_value - min_param_value)
                        / (max_search_value - min_search_value);
               bias = min_param_value - scale * min_search_value
           in Inr (map (\<lambda>v. scale * v + bias) search_value))"

subsection \<open>Configuration (\<^verbatim>\<open>RelationalCategorization.__init__\<close>)\<close>

text \<open>The keyword options with their defaults; the two counts are non-negative
  Python ints and are modelled as \<^typ>\<open>nat\<close>.\<close>

record config =
  world_left :: real
  world_right :: real
  world_top :: real
  world_bottom :: real
  bilateral_symmetry :: bool
  agent_radius :: real
  mass :: real
  visual_angle :: real
  num_rays :: nat
  num_interneurons :: nat
  max_distance :: real
  max_ray_length :: real
  max_velocity :: real
  obj_velocity :: real
  circle_size :: real
  circle_min_diameter :: real
  circle_max_diameter :: real
  circle_difference :: real
  step_size :: real
  min_weight :: real
  max_weight :: real
  min_bias :: real
  max_bias :: real
  min_tau :: real
  max_tau :: real
  min_search_value :: real
  max_search_value :: real
  noise_strength :: real

definition parameter_defaults :: config where
  "parameter_defaults =
     \<lparr> world_left = 0, world_right = 400, world_top = 0, world_bottom = 300,
       bilateral_symmetry = False, agent_radius = 15, mass = 0.2,
       visual_angle = pi / 6, num_rays = 7, num_interneurons = 3,
       max_distance = 75, max_ray_length = 220, max_velocity = 5,
       obj_velocity = 3, circle_size = 20, circle_min_diameter = 20,
       circle_max_diameter = 50, circle_difference = 5, step_size = 0.1,
       min_weight = -16, max_weight = 16, min_bias = -16, max_bias = 16,
       min_tau = 1, max_tau = 30, min_search_value = 0, max_search_value = 1,
       noise_strength = 0 \<rparr>"

definition circuit_size :: "config \<Rightarrow> nat" where
  "circuit_size cfg = num_interneurons cfg + 2"

definition initial_agent_x :: "config \<Rightarrow> real" where
  "initial_agent_x cfg = (world_right cfg - world_left cfg) / 2"

definition initial_agent_y :: "config \<Rightarrow> real" where
  "initial_agent_y cfg = world_bottom cfg - agent_radius cfg"

text \<open>Lines 86--120, the derived parameter counts. For the non-negative ints here
  \<^verbatim>\<open>int(n / 2)\<close> is \<open>n div 2\<close> and \<^verbatim>\<open>math.ceil(n / 2)\<close> is \<open>(n + 1) div 2\<close>.\<close>

definition num_sensor_weights :: "config \<Rightarrow> nat" where
  "num_sensor_weights cfg =
     (if bilateral_symmetry cfg then
        if num_rays cfg mod 2 = 0
        then num_rays cfg div 2 * num_interneurons cfg
        else (num_rays cfg - 1) div 2 * num_interneurons cfg
               + (num_interneurons cfg + 1) div 2
      else num_interneurons cfg * num_rays cfg)"

definition num_circuit_weights :: "config \<Rightarrow> nat" where
  "num_circuit_weights cfg =
     (if bilateral_symmetry cfg then
        let num_motor_weights = num_interneurons cfg;
            num_loops = (num_interneurons cfg + 1) div 2;
            num_cross_connections = (num_interneurons cfg div 2)\<^sup>2;
            num_side_connections = (num_interneurons cfg + 1) div 2
                                     * ((num_interneurons cfg + 1) div 2 - 1)
        in num_motor_weights + num_loops + num_cross_connections + num_side_connections
      else num_interneurons cfg * (num_interneurons cfg + 2))"

definition num_parameters :: "config \<Rightarrow> nat" where
  "num_parameters cfg =
     (if bilateral_symmetry cfg then
        num_sensor_weights cfg + num_circuit_weights cfg
          + (num_interneurons cfg + 1) div 2 + (num_interneurons cfg + 1) div 2 + 2
      else num_sensor_weights cfg + num_circuit_weights cfg
             + num_interneurons cfg + 2 + num_interneurons cfg + 2)"

subsection \<open>One trial (\<^verbatim>\<open>RelationalCategorization.trial\<close>)\<close>

text \<open>
  The agent and the falling object are collaborators whose classes live outside this
  module. Their attributes that \<^verbatim>\<open>trial\<close> reads or assigns are record fields;
  everything else they hold sits in the record extension. Their methods are parameters,
  gathered in \<open>collaborators\<close>. Methods that receive the ball may mutate it, so they
  act on the pair of both objects.
\<close>

record 'n sensor_agent =
  xpos :: real
  ypos :: real
  radius :: real
  agent_max_ray_length :: real
  velocity_x :: real
  nervous_system :: 'n

record circle =
  center_xpos :: real
  center_ypos :: real
  size_circle :: real

record ('n, 'a, 'b) world =
  agent :: "('n, 'a) sensor_agent_scheme"
  ball :: "'b circle_scheme"

record ('n, 'a, 'b) collaborators =
  set_position_agent :: "real \<Rightarrow> real \<Rightarrow> ('n, 'a) sensor_agent_scheme \<Rightarrow> ('n, 'a) sensor_agent_scheme"
  reset_rays :: "('n, 'a) sensor_agent_scheme \<Rightarrow> ('n, 'a) sensor_agent_scheme"
  initialize :: "'n \<Rightarrow> 'n"
  initialize_ray_sensors :: "('n, 'a, 'b) world \<Rightarrow> ('n, 'a, 'b) world"
  one_obj_step :: "real \<Rightarrow> bool \<Rightarrow> ('n, 'a, 'b) world \<Rightarrow> ('n, 'a, 'b) world"
  clip_position :: "real \<Rightarrow> real \<Rightarrow> ('n, 'a) sensor_agent_scheme \<Rightarrow> ('n, 'a) sensor_agent_scheme"
  set_position_ball :: "real \<Rightarrow> real \<Rightarrow> 'b circle_scheme \<Rightarrow> 'b circle_scheme"
  set_size :: "real \<Rightarrow> 'b circle_scheme \<Rightarrow> 'b circle_scheme"
  step :: "real \<Rightarrow> 'b circle_scheme \<Rightarrow> 'b circle_scheme"
  leading_edge_y :: "'b circle_scheme \<Rightarrow> real"

text \<open>What a trial returns: a float in fitness mode, a pair \<open>(success, caught)\<close>
  in validation mode.\<close>

datatype trial_result = Fitness real | Validation int int

text \<open>Lines 371--381: reset the agent and the controller, place the presented ball.\<close>

definition trial_setup ::
  "('n, 'a, 'b) collaborators \<Rightarrow> config \<Rightarrow> real \<Rightarrow> ('n, 'a, 'b) world \<Rightarrow> ('n, 'a, 'b) world" where
  "trial_setup ops cfg presented_ball_size w =
     (let a1 = set_position_agent ops (initial_agent_x cfg) (initial_agent_y cfg) (agent w);
          a2 = reset_rays ops a1;
          a3 = a2\<lparr>nervous_system := initialize ops (nervous_system a2)\<rparr>;
          a4 = a3\<lparr>velocity_x := 0\<rparr>;
          initial_object_y = initial_agent_y cfg
                               - (radius a4 + agent_max_ray_length a4 + presented_ball_size);
          b1 = set_position_ball ops (initial_agent_x cfg) initial_object_y (ball w);
          b2 = set_size ops (presented_ball_size / 2) b1
      in initialize_ray_sensors ops \<lparr>agent = a4, ball = b2\<rparr>)"

text \<open>Lines 388--390: the presented ball drops while the agent is held still. A loop
  that never ends is the value \<open>None\<close>.\<close>

partial_function (option) presentation_loop ::
  "('n, 'a, 'b) collaborators \<Rightarrow> config \<Rightarrow> ('n, 'a, 'b) world \<Rightarrow> ('n, 'a, 'b) world option" where
  "presentation_loop ops cfg w =
     (if leading_edge_y ops (ball w) < ypos (agent w) - radius (agent w)
      then presentation_loop ops cfg
             (one_obj_step ops (step_size cfg) True
                (w\<lparr>ball := step ops (step_size cfg) (ball w)\<rparr>))
      else Some w)"

text \<open>Lines 395--400: place the comparison ball and reset the rays.\<close>

definition trial_resetup ::
  "('n, 'a, 'b) collaborators \<Rightarrow> config \<Rightarrow> real \<Rightarrow> ('n, 'a, 'b) world \<Rightarrow> ('n, 'a, 'b) world" where
  "trial_resetup ops cfg comparison_ball_size w =
     (let initial_object_y = initial_agent_y cfg
             - (radius (agent w) + agent_max_ray_length (agent w) + comparison_ball_size);
          b1 = set_position_ball ops (initial_agent_x cfg) initial_object_y (ball w);
          b2 = set_size ops (comparison_ball_size / 2) b1
      in \<lparr>agent = reset_rays ops (agent w), ball = b2\<rparr>)"

text \<open>Lines 403--407: the comparison ball drops and the agent moves, kept within
  the world.\<close>

partial_function (option) comparison_loop ::
  "('n, 'a, 'b) collaborators \<Rightarrow> config \<Rightarrow> ('n, 'a, 'b) world \<Rightarrow> ('n, 'a, 'b) world option" where
  "comparison_loop ops cfg w =
     (if leading_edge_y ops (ball w) < ypos (agent w) - radius (agent w)
      then comparison_loop ops cfg
             (let w1 = one_obj_step ops (step_size cfg) False
                         (w\<lparr>ball := step ops (step_size cfg) (ball w)\<rparr>)
              in w1\<lparr>agent := clip_position ops (world_left cfg) (world_right cfg) (agent w1)\<rparr>)
      else Some w)"

text \<open>Lines 411--434: the value returned, from the final positions.\<close>

definition trial_outcome ::
  "config \<Rightarrow> bool \<Rightarrow> real \<Rightarrow> real \<Rightarrow> ('n, 'a, 'b) world \<Rightarrow> py_error + trial_result" where
  "trial_outcome cfg validation presented_ball_size comparison_ball_size w =
     (let b = ball w; a = agent w in
      if validation then
        if presented_ball_size > comparison_ball_size then
          if center_xpos b - size_circle b > xpos a + radius a
             \<or> center_xpos b + size_circle b < xpos a - radius a
          then Inr (Validation 0 0)
          else Inr (Validation 1 1)
        else
          if center_xpos b - size_circle b > xpos a + radius a
             \<or> center_xpos b + size_circle b < xpos a - radius a
          then Inr (Validation 1 0)
          else Inr (Validation 0 1)
      else
        if max_distance cfg = 0 then Inl ZeroDivisionError
        else
          let normalized_distance = \<bar>center_xpos b - xpos a\<bar> / max_distance cfg;
              normalized_distance = (if normalized_distance > 1 then 1
                                     else normalized_distance)
          in Inr (Fitness (if presented_ball_size > comparison_ball_size
                           then 1 - normalized_distance else normalized_distance)))"

text \<open>The whole call without recording (\<^verbatim>\<open>record=False\<close>, as the sweep and the
  validation runs call it). The objects are mutated in place, so the final world is
  returned beside the value.\<close>

definition trial ::
  "('n, 'a, 'b) collaborators \<Rightarrow> config \<Rightarrow> ('n, 'a, 'b) world \<Rightarrow> real \<Rightarrow> real \<Rightarrow> bool
     \<Rightarrow> ((py_error + trial_result) \<times> ('n, 'a, 'b) world) option" where
  "trial ops cfg w presented_ball_size comparison_ball_size validation =
     (case presentation_loop ops cfg (trial_setup ops cfg presented_ball_size w) of
        None \<Rightarrow> None
      | Some w1 \<Rightarrow>
          (case comparison_loop ops cfg (trial_resetup ops cfg comparison_ball_size w1) of
             None \<Rightarrow> None
           | Some w2 \<Rightarrow>
               Some (trial_outcome cfg validation presented_ball_size
                       comparison_ball_size w2, w2)))"

subsection \<open>Matrices (numpy arrays of rank 2)\<close>

text \<open>A numpy array of shape \<open>(shape0, shape1)\<close>. Reading or writing outside the
  shape raises; all indices in this module are non-negative.\<close>

record matrix =
  shape0 :: nat
  shape1 :: nat
  entries :: "nat \<Rightarrow> nat \<Rightarrow> real"

definition zeros :: "nat \<Rightarrow> nat \<Rightarrow> matrix" where
  "zeros r c = \<lparr>shape0 = r, shape1 = c, entries = (\<lambda>i j. 0)\<rparr>"

definition getitem :: "matrix \<Rightarrow> nat \<Rightarrow> nat \<Rightarrow> py_error + real" where
  "getitem m i j = (if i < shape0 m \<and> j < shape1 m then Inr (entries m i j)
                    else Inl IndexError)"

definition setitem :: "matrix \<Rightarrow> nat \<Rightarrow> nat \<Rightarrow> real \<Rightarrow> py_error + matrix" where
  "setitem m i j v =
     (if i < shape0 m \<and> j < shape1 m
      then Inr (m\<lparr>entries := (entries m)(i := (entries m i)(j := v))\<rparr>)
      else Inl IndexError)"

text \<open>Division of a Python float by a Python int: a zero divisor raises.\<close>

definition py_truediv :: "real \<Rightarrow> int \<Rightarrow> py_error + real" where
  "py_truediv x k = (if k = 0 then Inl ZeroDivisionError else Inr (x / of_int k))"

subsection \<open>Fitness reduction (\<^verbatim>\<open>RelationalCategorization.eval_fitness\<close>)\<close>

text \<open>The local variables of the two nested loops.\<close>

record fitness_sums =
  col_avg :: real
  row_avg :: real
  col_sum :: real
  row_sum :: real
  num_sums :: nat

text \<open>Lines 447--456, the body of the inner loop.\<close>

definition eval_fitness_inner :: "matrix \<Rightarrow> nat \<Rightarrow> nat \<Rightarrow> fitness_sums \<Rightarrow> py_error + fitness_sums" where
  "eval_fitness_inner fitness_matrix i j st =
     (if i = j then
        bindE (py_truediv (col_sum st) (int (num_sums st))) (\<lambda>c.
        bindE (py_truediv (row_sum st) (int (num_sums st))) (\<lambda>r.
        Inr (st\<lparr>col_avg := col_avg st + c, row_avg := row_avg st + r,
                 col_sum := 0, row_sum := 0, num_sums := 0\<rparr>)))
      else
        bindE (getitem fitness_matrix j i) (\<lambda>a.
        bindE (getitem fitness_matrix i j) (\<lambda>b.
        Inr (st\<lparr>num_sums := num_sums st + 1, col_sum := col_sum st + a,
                 row_sum := row_sum st + b\<rparr>))))"

text \<open>Lines 442--459, the body of the outer loop.\<close>

definition eval_fitness_outer :: "matrix \<Rightarrow> nat \<Rightarrow> fitness_sums \<Rightarrow> py_error + fitness_sums" where
  "eval_fitness_outer fitness_matrix i st =
     bindE (forE [0..<shape1 fitness_matrix] (eval_fitness_inner fitness_matrix i)
              (st\<lparr>col_sum := 0, row_sum := 0, num_sums := 0\<rparr>)) (\<lambda>st.
     bindE (py_truediv (col_sum st) (int (num_sums st))) (\<lambda>c.
     bindE (py_truediv (row_sum st) (int (num_sums st))) (\<lambda>r.
     Inr (st\<lparr>col_avg := col_avg st + c, row_avg := row_avg st + r\<rparr>))))"

text \<open>Lines 438--462. The interior indices are \<^verbatim>\<open>range(1, shape[0] - 1)\<close>; the last
  divisor \<^verbatim>\<open>shape[0] - 2\<close> is a Python int and may be zero or negative.\<close>

definition eval_fitness :: "matrix \<Rightarrow> py_error + real" where
  "eval_fitness fitness_matrix =
     bindE (forE [1..<shape0 fitness_matrix - 1] (eval_fitness_outer fitness_matrix)
              \<lparr>col_avg = 0, row_avg = 0, col_sum = 0, row_sum = 0, num_sums = 0\<rparr>) (\<lambda>st.
     bindE (py_truediv (col_avg st) (int (shape0 fitness_matrix) - 2)) (\<lambda>c.
     bindE (py_truediv (row_avg st) (int (shape0 fitness_matrix) - 2)) (\<lambda>r.
     Inr (min (c / 2) (r / 2)))))"

text \<open>For stating what the reduction computes: the mean of the entries of column
  (row) \<open>i\<close> before the diagonal plus the mean of those after it.\<close>

definition split_col_average :: "matrix \<Rightarrow> nat \<Rightarrow> real" where
  "split_col_average m i =
     (\<Sum>j = 0..<i. entries m j i) / real i
     + (\<Sum>j = Suc i..<shape1 m. entries m j i) / real (shape1 m - Suc i)"

definition split_row_average :: "matrix \<Rightarrow> nat \<Rightarrow> real" where
  "split_row_average m i =
     (\<Sum>j = 0..<i. entries m i j) / real i
     + (\<Sum>j = Suc i..<shape1 m. entries m i j) / real (shape1 m - Suc i)"

text \<open>The square matrix with \<open>d\<close> on the diagonal and \<open>c\<close> elsewhere.\<close>

definition off_diagonal :: "nat \<Rightarrow> real \<Rightarrow> real \<Rightarrow> matrix" where
  "off_diagonal n d c = \<lparr>shape0 = n, shape1 = n, entries = (\<lambda>i j. if i = j then d else c)\<rparr>"

subsection \<open>The trial sweep (\<^verbatim>\<open>RelationalCategorization.run_trials\<close>)\<close>

text \<open>Python's \<^verbatim>\<open>int(x)\<close> on a float truncates towards zero.\<close>

definition py_int :: "real \<Rightarrow> int" where
  "py_int x = (if 0 \<le> x then \<lfloor>x\<rfloor> else \<lceil>x\<rceil>)"

text \<open>Lines 320--323: \<^verbatim>\<open>np.zeros((int(max / diff), int(max / diff)))\<close>. The float
  division raises on a zero step, and numpy rejects negative dimensions.\<close>

definition result_matrix_zeros :: "config \<Rightarrow> py_error + matrix" where
  "result_matrix_zeros cfg =
     (if circle_difference cfg = 0 then Inl ZeroDivisionError
      else let n = py_int (circle_max_diameter cfg / circle_difference cfg)
           in if n < 0 then Inl ValueError else Inr (zeros (nat n) (nat n)))"

text \<open>A \<^verbatim>\<open>for\<close> loop whose body may raise or may not return.\<close>

fun forR :: "nat list \<Rightarrow> (nat \<Rightarrow> 's \<Rightarrow> ('e + 's) option) \<Rightarrow> 's \<Rightarrow> ('e + 's) option" where
  "forR [] body s = Some (Inr s)"
| "forR (k # ks) body s =
     (case body k s of
        None \<Rightarrow> None
      | Some (Inl e) \<Rightarrow> Some (Inl e)
      | Some (Inr s') \<Rightarrow> forR ks body s')"

text \<open>Lines 326--332, the body of the inner loop. A trial in fitness mode returns a
  float; numpy would reject a tuple.\<close>

definition run_trials_cell ::
  "('n, 'a, 'b) collaborators \<Rightarrow> config \<Rightarrow> nat \<Rightarrow> nat \<Rightarrow> matrix \<times> ('n, 'a, 'b) world
     \<Rightarrow> (py_error + matrix \<times> ('n, 'a, 'b) world) option" where
  "run_trials_cell ops cfg i j st =
     (case st of (result_matrix, w) \<Rightarrow>
      if i \<noteq> j then
        let ball_size = real i * circle_difference cfg + circle_min_diameter cfg;
            compare_ball_size = real j * circle_difference cfg + circle_min_diameter cfg
        in (case trial ops cfg w ball_size compare_ball_size False of
              None \<Rightarrow> None
            | Some (Inl e, w') \<Rightarrow> Some (Inl e)
            | Some (Inr (Validation s c), w') \<Rightarrow> Some (Inl ValueError)
            | Some (Inr (Fitness d), w') \<Rightarrow>
                Some (bindE (setitem result_matrix i j d) (\<lambda>m. Inr (m, w'))))
      else Some (Inr st))"

text \<open>Lines 320--332: the matrix the sweep builds.\<close>

definition run_trials_matrix ::
  "('n, 'a, 'b) collaborators \<Rightarrow> config \<Rightarrow> ('n, 'a, 'b) world
     \<Rightarrow> (py_error + matrix \<times> ('n, 'a, 'b) world) option" where
  "run_trials_matrix ops cfg w =
     (case result_matrix_zeros cfg of
        Inl e \<Rightarrow> Some (Inl e)
      | Inr result_matrix \<Rightarrow>
          forR [0..<shape0 result_matrix]
            (\<lambda>i. forR [0..<shape1 result_matrix] (run_trials_cell ops cfg i))
            (result_matrix, w))"

text \<open>Line 334.\<close>

definition run_trials ::
  "('n, 'a, 'b) collaborators \<Rightarrow> config \<Rightarrow> ('n, 'a, 'b) world
     \<Rightarrow> (py_error + real \<times> ('n, 'a, 'b) world) option" where
  "run_trials ops cfg w =
     (case run_trials_matrix ops cfg w of
        None \<Rightarrow> None
      | Some (Inl e) \<Rightarrow> Some (Inl e)
      | Some (Inr (result_matrix, w')) \<Rightarrow>
          Some (bindE (eval_fitness result_matrix) (\<lambda>f. Inr (f, w'))))"

subsection \<open>Genome decoder (\<^verbatim>\<open>RelationalCategorization.map_search_parameters\<close>)\<close>

text \<open>
  Modelled from the spec: the controller object belongs to the agent's class, outside
  this module. Its parameter set is a sensor-weight matrix (ray count by interneuron
  count), an internal-weight matrix (circuit size by circuit size), a bias vector and a
  time-constant vector; \<^verbatim>\<open>set_biases\<close> and \<^verbatim>\<open>set_time_constants\<close> store the vector
  they are given.
\<close>

record controller =
  sensor_weights :: matrix
  circuit_weights :: matrix
  biases :: "real list"
  time_constants :: "real list"

definition set_biases :: "real list \<Rightarrow> controller \<Rightarrow> controller" where
  "set_biases v ns = ns\<lparr>biases := v\<rparr>"

definition set_time_constants :: "real list \<Rightarrow> controller \<Rightarrow> controller" where
  "set_time_constants v ns = ns\<lparr>time_constants := v\<rparr>"

text \<open>The expression \<^verbatim>\<open>rescale_parameter(periodic_boundary_conditions(seg, 1), lo, hi,
  self.min_search_value, self.max_search_value)\<close> applied to a slice of the genome.\<close>

definition rescaled_segment :: "config \<Rightarrow> real list \<Rightarrow> real \<Rightarrow> real \<Rightarrow> py_error + real list" where
  "rescaled_segment cfg seg lo hi =
     bindE (periodic_boundary_conditions_array seg 1) (\<lambda>wrapped.
       rescale_parameter_array wrapped lo hi (min_search_value cfg) (max_search_value cfg))"

text \<open>Reading and writing a numpy vector, by a non-negative index and by a negative
  one (\<^verbatim>\<open>v[-k]\<close>).\<close>

definition getitem1 :: "real list \<Rightarrow> nat \<Rightarrow> py_error + real" where
  "getitem1 v i = (if i < length v then Inr (v ! i) else Inl IndexError)"

definition setitem1 :: "real list \<Rightarrow> nat \<Rightarrow> real \<Rightarrow> py_error + real list" where
  "setitem1 v i a = (if i < length v then Inr (v[i := a]) else Inl IndexError)"

definition getitem_neg :: "real list \<Rightarrow> nat \<Rightarrow> py_error + real" where
  "getitem_neg v k = (if k \<le> length v then Inr (v ! (length v - k)) else Inl IndexError)"

definition setitem_neg :: "real list \<Rightarrow> nat \<Rightarrow> real \<Rightarrow> py_error + real list" where
  "setitem_neg v k a = (if k \<le> length v then Inr (v[length v - k := a]) else Inl IndexError)"

text \<open>\<^verbatim>\<open>m[pos] = pars[k]\<close>: the right-hand side is read first.\<close>

definition assign_from :: "real list \<Rightarrow> nat \<Rightarrow> nat \<times> nat \<Rightarrow> matrix \<Rightarrow> py_error + matrix" where
  "assign_from pars k pos m =
     bindE (getitem1 pars k) (\<lambda>v. setitem m (fst pos) (snd pos) v)"

text \<open>The statement triple of the symmetric loops: the free value at
  \<^verbatim>\<open>index_counter\<close> goes to a position and to its mirror, then the counter advances.
  The index expressions \<^verbatim>\<open>n - i - 1\<close> below never go negative within their loop
  ranges, so natural-number subtraction is exact.\<close>

definition assign_pair ::
  "real list \<Rightarrow> nat \<times> nat \<Rightarrow> nat \<times> nat \<Rightarrow> matrix \<times> nat \<Rightarrow> py_error + matrix \<times> nat" where
  "assign_pair pars pos mirror st =
     (case st of (m, index_counter) \<Rightarrow>
        bindE (assign_from pars index_counter pos m) (\<lambda>m1.
        bindE (assign_from pars index_counter mirror m1) (\<lambda>m2.
        Inr (m2, index_counter + 1))))"

text \<open>Lines 163--180. The final \<^verbatim>\<open>index_counter\<close> is returned beside the matrix.\<close>

definition symmetric_sensor_weights :: "config \<Rightarrow> real list \<Rightarrow> matrix \<Rightarrow> py_error + matrix \<times> nat" where
  "symmetric_sensor_weights cfg pars m =
     bindE (forE [0..<num_rays cfg div 2] (\<lambda>i.
              forE [0..<num_interneurons cfg] (\<lambda>j.
                assign_pair pars (i, j)
                  (num_rays cfg - i - 1, num_interneurons cfg - j - 1)))
              (m, 0)) (\<lambda>st.
     if num_rays cfg mod 2 = 1 then
       forE [0..<(num_interneurons cfg + 1) div 2] (\<lambda>j.
         assign_pair pars (num_rays cfg div 2, j)
           (num_rays cfg div 2, num_interneurons cfg - j - 1)) st
     else Inr st)"

text \<open>Lines 191--232.\<close>

definition symmetric_circuit_weights :: "config \<Rightarrow> real list \<Rightarrow> matrix \<Rightarrow> py_error + matrix \<times> nat" where
  "symmetric_circuit_weights cfg pars m =
     bindE (forE [0..<num_interneurons cfg div 2] (\<lambda>i.
              forE [0..<num_interneurons cfg] (\<lambda>j.
                assign_pair pars (i, j)
                  (num_interneurons cfg - i - 1, num_interneurons cfg - j - 1)))
              (m, 0)) (\<lambda>st.
     bindE (if num_interneurons cfg mod 2 = 1 then
              forE [0..<(num_interneurons cfg + 1) div 2] (\<lambda>j.
                assign_pair pars (num_interneurons cfg div 2, j)
                  (num_interneurons cfg div 2, num_interneurons cfg - j - 1)) st
            else Inr st) (\<lambda>st.
     bindE (forE [0..<num_interneurons cfg div 2] (\<lambda>i.
              forE [0..<2] (\<lambda>j.
                assign_pair pars (i, num_interneurons cfg + j)
                  (num_interneurons cfg - i - 1, circuit_size cfg - j - 1)))
              st) (\<lambda>st.
     if num_interneurons cfg mod 2 = 1 then
       forE [0..<1] (\<lambda>j.
         assign_pair pars (num_interneurons cfg div 2, num_interneurons cfg + j)
           (num_interneurons cfg div 2, circuit_size cfg - j - 1)) st
     else Inr st)))"

text \<open>Lines 241--248 and 257--265: the bias and the time-constant vector are built
  by the same statements.\<close>

definition symmetric_vector :: "config \<Rightarrow> real list \<Rightarrow> py_error + real list" where
  "symmetric_vector cfg pars =
     bindE (forE [0..<(num_interneurons cfg + 1) div 2] (\<lambda>i v.
              bindE (getitem1 pars i) (\<lambda>a.
              bindE (setitem1 v i a) (\<lambda>v1.
              bindE (getitem1 pars i) (\<lambda>b.
              setitem1 v1 (num_interneurons cfg - i - 1) b))))
              (replicate (circuit_size cfg) 0)) (\<lambda>v.
     bindE (getitem_neg pars 1) (\<lambda>a.
     bindE (setitem_neg v 2 a) (\<lambda>v1.
     bindE (getitem_neg pars 1) (\<lambda>b.
     setitem_neg v1 1 b))))"

text \<open>Lines 150--316.\<close>

definition map_search_parameters :: "config \<Rightarrow> real list \<Rightarrow> controller \<Rightarrow> py_error + controller" where
  "map_search_parameters cfg x ns =
     (if bilateral_symmetry cfg then
        let sensor_index_end = num_sensor_weights cfg;
            circuit_index_end = sensor_index_end + num_circuit_weights cfg;
            bias_index_end = circuit_index_end + (circuit_size cfg + 1) div 2
        in
        bindE (rescaled_segment cfg (take sensor_index_end x)
                 (min_weight cfg) (max_weight cfg)) (\<lambda>sensor_pars.
        bindE (symmetric_sensor_weights cfg sensor_pars
                 (sensor_weights ns)) (\<lambda>sw.
        bindE (rescaled_segment cfg (drop sensor_index_end (take circuit_index_end x))
                 (min_weight cfg) (max_weight cfg)) (\<lambda>circuit_pars.
        bindE (symmetric_circuit_weights cfg circuit_pars
                 (circuit_weights ns)) (\<lambda>cw.
        bindE (rescaled_segment cfg (drop circuit_index_end (take bias_index_end x))
                 (min_bias cfg) (max_bias cfg)) (\<lambda>bias_pars.
        bindE (symmetric_vector cfg bias_pars) (\<lambda>biases.
        bindE (rescaled_segment cfg (drop bias_index_end x)
                 (min_tau cfg) (max_tau cfg)) (\<lambda>time_constant_pars.
        bindE (symmetric_vector cfg time_constant_pars) (\<lambda>time_constants.
        Inr (set_time_constants time_constants (set_biases biases
               (ns\<lparr>sensor_weights := fst sw,
                                circuit_weights := fst cw\<rparr>)))))))))))
      else
        let sensor_index_end = num_sensor_weights cfg;
            circuit_index_end = sensor_index_end + num_circuit_weights cfg;
            bias_index_end = circuit_index_end + circuit_size cfg
        in
        bindE (rescaled_segment cfg (take sensor_index_end x)
                 (min_weight cfg) (max_weight cfg)) (\<lambda>sensor_pars.
        bindE (forE [0..<num_rays cfg] (\<lambda>i.
                 forE [0..<num_interneurons cfg] (\<lambda>j.
                   assign_from sensor_pars (num_interneurons cfg * i + j) (i, j)))
                 (sensor_weights ns)) (\<lambda>sw.
        bindE (rescaled_segment cfg (drop sensor_index_end (take circuit_index_end x))
                 (min_weight cfg) (max_weight cfg)) (\<lambda>circuit_pars.
        bindE (forE [0..<num_interneurons cfg] (\<lambda>i.
                 forE [0..<num_interneurons cfg] (\<lambda>j.
                   assign_from circuit_pars (num_interneurons cfg * i + j) (i, j)))
                 (circuit_weights ns)) (\<lambda>cw1.
        bindE (forE [0..<num_interneurons cfg] (\<lambda>i.
                 forE [0..<2] (\<lambda>j.
                   assign_from circuit_pars
                     (num_interneurons cfg * num_interneurons cfg + 2 * i + j)
                     (i, num_interneurons cfg + j)))
                 cw1) (\<lambda>cw.
        bindE (rescaled_segment cfg (drop circuit_index_end (take bias_index_end x))
                 (min_bias cfg) (max_bias cfg)) (\<lambda>biases.
        bindE (rescaled_segment cfg (drop bias_index_end x)
                 (min_tau cfg) (max_tau cfg)) (\<lambda>time_constants.
        Inr (set_time_constants time_constants (set_biases biases
               (ns\<lparr>sensor_weights := sw, circuit_weights := cw\<rparr>)))))))))))"

text \<open>Reading the decoded parameters back.\<close>

definition read_sensor_weight :: "py_error + controller \<Rightarrow> nat \<Rightarrow> nat \<Rightarrow> py_error + real" where
  "read_sensor_weight res i j = bindE res (\<lambda>ns. getitem (sensor_weights ns) i j)"

definition read_circuit_weight :: "py_error + controller \<Rightarrow> nat \<Rightarrow> nat \<Rightarrow> py_error + real" where
  "read_circuit_weight res i j = bindE res (\<lambda>ns. getitem (circuit_weights ns) i j)"

definition read_biases :: "py_error + controller \<Rightarrow> py_error + real list" where
  "read_biases res = bindE res (\<lambda>ns. Inr (biases ns))"

definition read_time_constants :: "py_error + controller \<Rightarrow> py_error + real list" where
  "read_time_constants res = bindE res (\<lambda>ns. Inr (time_constants ns))"

definition segment_entry :: "py_error + real list \<Rightarrow> nat \<Rightarrow> py_error + real" where
  "segment_entry res k = bindE res (\<lambda>pars. getitem1 pars k)"

subsection \<open>A small concrete instance of the collaborators\<close>

text \<open>A ball that falls straight down and a controller that only counts its
  updates; used to run the trial on concrete inputs.\<close>

definition demo_collaborators :: "(nat, unit, unit) collaborators" where
  "demo_collaborators =
     \<lparr> set_position_agent = (\<lambda>x y a. a\<lparr>xpos := x, ypos := y\<rparr>),
       reset_rays = (\<lambda>a. a),
       initialize = (\<lambda>n. 0),
       initialize_ray_sensors = (\<lambda>w. w),
       one_obj_step = (\<lambda>dt frozen w. w\<lparr>agent := (agent w)\<lparr>nervous_system := Suc (nervous_system (agent w))\<rparr>\<rparr>),
       clip_position = (\<lambda>l r a. a\<lparr>xpos := max l (min r (xpos a))\<rparr>),
       set_position_ball = (\<lambda>x y b. b\<lparr>center_xpos := x, center_ypos := y\<rparr>),
       set_size = (\<lambda>s b. b\<lparr>size_circle := s\<rparr>),
       step = (\<lambda>dt b. b\<lparr>center_ypos := center_ypos b + 3000 * dt\<rparr>),
       leading_edge_y = (\<lambda>b. center_ypos b + size_circle b) \<rparr>"

definition demo_world :: "(nat, unit, unit) world" where
  "demo_world =
     \<lparr> agent = \<lparr>xpos = 0, ypos = 0, radius = 15, agent_max_ray_length = 220,
                velocity_x = 1, nervous_system = 7\<rparr>,
       ball = \<lparr>center_xpos = 200, center_ypos = 0, size_circle = 20\<rparr> \<rparr>"

text \<open>A one-ray, two-interneuron configuration with a blank controller and a genome of
  the 18 entries it needs.\<close>

definition demo_config :: config where
  "demo_config = parameter_defaults\<lparr>num_rays := 1, num_interneurons := 2\<rparr>"

definition demo_controller :: controller where
  "demo_controller = \<lparr>sensor_weights = zeros 1 2, circuit_weights = zeros 4 4,
                        biases = [], time_constants = []\<rparr>"

definition demo_genome :: "real list" where
  "demo_genome = [0, 1,  0, 0, 0, 0, 1, 0, 0, 5 / 2,  0, 0, 0, 1 / 2,  1, 1, 3, 1]"

text \<open>A bilateral-symmetric configuration with three rays and one interneuron, a blank
  controller of its shapes and a genome of the 8 entries it needs.\<close>

definition sym_config :: config where
  "sym_config = parameter_defaults\<lparr>bilateral_symmetry := True, num_rays := 3,
                                     num_interneurons := 1\<rparr>"

definition sym_controller :: controller where
  "sym_controller = \<lparr>sensor_weights = zeros 3 1, circuit_weights = zeros 3 3,
                       biases = [], time_constants = []\<rparr>"

definition sym_genome :: "real list" where
  "sym_genome = [0, 1,  1 / 2, 1,  0, 1,  1, 0]"

subsection \<open>The rescaler in float64 arithmetic\<close>

text \<open>
  The two module-level functions compute on Python floats, that is on IEEE 754 binary64
  numbers. A finite float64 is represented by the real number it denotes, and every
  arithmetic operation of the source returns the exact result rounded to the nearest
  float64, ties to the even significand. Infinities, nan and overflow are outside this
  model: it describes the operations on finite values whose results stay below
  \<open>2 ^ 1024\<close> in magnitude.
\<close>

text \<open>The power \<open>2 ^ k\<close> for an integer exponent.\<close>

definition pow2 :: "int \<Rightarrow> real" where
  "pow2 k = (if 0 \<le> k then 2 ^ nat k else 1 / 2 ^ nat (- k))"

text \<open>Rounding to the nearest integer, a tie going to the even neighbour.\<close>

definition round_half_even :: "real \<Rightarrow> int" where
  "round_half_even q =
     (let f = \<lfloor>q\<rfloor>; d = q - of_int f
      in if d < 1 / 2 then f else if 1 / 2 < d then f + 1
         else if even f then f else f + 1)"

text \<open>The spacing of the float64 grid at \<open>x\<close>: 52 fraction bits below the leading
  binary digit, and never finer than the subnormal spacing \<open>2 ^ (- 1074)\<close>.\<close>

definition ulp64 :: "real \<Rightarrow> real" where
  "ulp64 x = pow2 (max (\<lfloor>log 2 \<bar>x\<bar>\<rfloor> - 52) (- 1074))"

text \<open>The float64 nearest to a real number.\<close>

definition round64 :: "real \<Rightarrow> real" where
  "round64 x = (if x = 0 then 0
                else of_int (round_half_even (x / ulp64 x)) * ulp64 x)"

text \<open>The finite float64 values.\<close>

definition is_float64 :: "real \<Rightarrow> bool" where
  "is_float64 x \<longleftrightarrow> round64 x = x \<and> \<bar>x\<bar> < 2 ^ 1024"

text \<open>C's \<^verbatim>\<open>fmod\<close>, on which CPython builds the float \<^verbatim>\<open>%\<close>: the remainder of the
  division truncated towards zero; it is computed exactly.\<close>

definition c_fmod :: "real \<Rightarrow> real \<Rightarrow> real" where
  "c_fmod x y = x - y * of_int (py_int (x / y))"

text \<open>CPython's float \<^verbatim>\<open>x % y\<close>: \<^verbatim>\<open>mod = fmod(x, y)\<close>, and a nonzero \<^verbatim>\<open>mod\<close> whose
  sign differs from the divisor's is corrected by the float addition \<^verbatim>\<open>mod += y\<close>;
  a zero divisor raises.\<close>

definition py_mod64 :: "real \<Rightarrow> real \<Rightarrow> py_error + real" where
  "py_mod64 x y =
     (if y = 0 then Inl ZeroDivisionError
      else let m = c_fmod x y
           in if m \<noteq> 0 \<and> ((y < 0) \<noteq> (m < 0)) then Inr (round64 (m + y)) else Inr m)"

text \<open>\<^verbatim>\<open>return bound - abs(value % (2 * bound) - bound)\<close> with the product and the two
  differences rounded (\<^verbatim>\<open>abs\<close> is exact, and so is the remainder up to its sign
  correction).\<close>

definition periodic_boundary_conditions64 :: "real \<Rightarrow> real \<Rightarrow> py_error + real" where
  "periodic_boundary_conditions64 val bound =
     bindE (py_mod64 val (round64 (2 * bound)))
       (\<lambda>r. Inr (round64 (bound - \<bar>round64 (r - bound)\<bar>)))"

text \<open>
  \<^verbatim>\<open>scale = (max_param_value - min_param_value) / (max_search_value - min_search_value)
  bias = min_param_value - scale * min_search_value
  return scale * search_value + bias\<close>
  with one rounding for each of the seven operations.
\<close>

definition rescale_parameter64 ::
  "real \<Rightarrow> real \<Rightarrow> real \<Rightarrow> real \<Rightarrow> real \<Rightarrow> py_error + real" where
  "rescale_parameter64 search_value min_param_value max_param_value
                       min_search max_search =
     (let d = round64 (max_search - min_search)
      in if d = 0 then Inl ZeroDivisionError
         else let scale = round64 (round64 (max_param_value - min_param_value) / d);
                  bias = round64 (min_param_value - round64 (scale * min_search))
              in Inr (round64 (round64 (scale * search_value) + bias)))"

text \<open>The float64 nearest to one tenth, which is what the Python literal \<^verbatim>\<open>0.1\<close>
  denotes.\<close>

definition tenth64 :: real where
  "tenth64 = 3602879701896397 / 2 ^ 55"

subsection \<open>Properties of the rescaler\<close>

lemma bindE_Inr [simp]: "bindE (Inr a) f = f a"
  by (simp add: bindE_def)

lemma bindE_Inl [simp]: "bindE (Inl e) f = Inl e"
  by (simp add: bindE_def)

lemma py_mod_bounds:
  assumes "0 < y"
  shows "\<exists>r. py_mod x y = Inr r \<and> 0 \<le> r \<and> r < y"
proof -
  let ?q = "of_int \<lfloor>x / y\<rfloor> :: real"
  have xy: "x / y * y = x" using assms by simp
  have "?q \<le> x / y" by simp
  with assms have "?q * y \<le> x / y * y" by (intro mult_right_mono) simp_all
  with xy have lo: "?q * y \<le> x" by simp
  have "x / y < ?q + 1" by linarith
  with assms have "x / y * y < (?q + 1) * y" by (intro mult_strict_right_mono) simp_all
  with xy have hi: "x < (?q + 1) * y" by simp
  from lo hi have "0 \<le> x - y * ?q \<and> x - y * ?q < y"
    by (simp add: algebra_simps)
  with assms show ?thesis by (simp add: py_mod_def)
qed

lemma py_mod_shift:
  assumes "y \<noteq> 0"
  shows "py_mod (x + y) y = py_mod x y"
proof -
  have "(x + y) / y = x / y + 1" using assms by (simp add: field_simps)
  then have "\<lfloor>(x + y) / y\<rfloor> = \<lfloor>x / y\<rfloor> + 1" by simp
  then show ?thesis using assms by (simp add: py_mod_def algebra_simps)
qed

lemma periodic_boundary_conditions_range:
  assumes "0 < b"
  shows "\<exists>w. periodic_boundary_conditions v b = Inr w \<and> 0 \<le> w \<and> w \<le> b"
proof -
  from assms have "0 < 2 * b" by simp
  from py_mod_bounds [OF this, of v] obtain r
    where r: "py_mod v (2 * b) = Inr r" "0 \<le> r" "r < 2 * b" by blast
  then have "0 \<le> b - \<bar>r - b\<bar> \<and> b - \<bar>r - b\<bar> \<le> b" by (simp add: abs_if)
  with r show ?thesis by (simp add: periodic_boundary_conditions_def)
qed

lemma periodic_boundary_conditions_period:
  assumes "b \<noteq> 0"
  shows "periodic_boundary_conditions (v + 2 * b) b = periodic_boundary_conditions v b"
  using assms py_mod_shift [of "2 * b" v]
  by (simp add: periodic_boundary_conditions_def)

subsection \<open>Properties of the float64 rescaler\<close>

lemma pow2_powr: "pow2 k = 2 powr of_int k"
  by (simp add: pow2_def powr_real_of_int field_simps)

lemma pow2_pos [simp]: "0 < pow2 k"
  by (simp add: pow2_powr)

lemma floor_log2_eq:
  assumes "pow2 k \<le> \<bar>x\<bar>" "\<bar>x\<bar> < pow2 (k + 1)"
  shows "\<lfloor>log 2 \<bar>x\<bar>\<rfloor> = k"
proof -
  from assms(1) have "0 < \<bar>x\<bar>" using pow2_pos [of k] by linarith
  then show ?thesis
    using assms by (simp add: floor_log_eq_powr_iff pow2_powr)
qed

lemma ulp64_eval:
  assumes "pow2 k \<le> \<bar>x\<bar>" "\<bar>x\<bar> < pow2 (k + 1)"
  shows "ulp64 x = pow2 (max (k - 52) (- 1074))"
  by (simp add: ulp64_def floor_log2_eq [OF assms])

lemma round_half_even_le:
  assumes "q \<le> of_int n"
  shows "round_half_even q \<le> n"
proof -
  have "\<lfloor>q\<rfloor> \<le> n" using assms by (simp add: floor_le_iff)
  moreover have "\<lfloor>q\<rfloor> < n" if "q - of_int \<lfloor>q\<rfloor> \<noteq> 0"
  proof -
    from that have "of_int \<lfloor>q\<rfloor> < q" by linarith
    with assms have "of_int \<lfloor>q\<rfloor> < (of_int n :: real)" by linarith
    then show ?thesis by simp
  qed
  ultimately show ?thesis
    unfolding round_half_even_def Let_def by (auto split: if_splits)
qed

lemma round_half_even_ge:
  assumes "of_int n \<le> q"
  shows "n \<le> round_half_even q"
proof -
  have "n \<le> \<lfloor>q\<rfloor>" using assms by (simp add: le_floor_iff)
  then show ?thesis
    unfolding round_half_even_def Let_def by (auto split: if_splits)
qed

lemma round_half_even_minus: "round_half_even (- q) = - round_half_even q"
proof (cases "q = of_int \<lfloor>q\<rfloor>")
  case True
  then obtain n where q: "q = of_int n" by blast
  show ?thesis unfolding q round_half_even_def Let_def
    by (simp flip: of_int_minus)
next
  case False
  then have lt: "of_int \<lfloor>q\<rfloor> < q" by linarith
  have "q < of_int \<lfloor>q\<rfloor> + 1" by linarith
  with lt have f: "\<lfloor>- q\<rfloor> = - \<lfloor>q\<rfloor> - 1"
    by (intro floor_unique) (simp, linarith, simp)
  have d: "- q - of_int (- \<lfloor>q\<rfloor> - 1) = 1 - (q - of_int \<lfloor>q\<rfloor>)" by simp
  show ?thesis
    unfolding round_half_even_def Let_def f d
    by (auto split: if_splits)
qed

lemma ulp64_minus [simp]: "ulp64 (- x) = ulp64 x"
  by (simp add: ulp64_def)

lemma ulp64_pos [simp]: "0 < ulp64 x"
  by (simp add: ulp64_def)

lemma pow2_nonneg [simp]: "0 \<le> pow2 k"
  using pow2_pos [of k] by linarith

lemma pow2_nonzero [simp]: "pow2 k \<noteq> 0"
  using pow2_pos [of k] by linarith

lemma ulp64_nonneg [simp]: "0 \<le> ulp64 x"
  by (simp add: ulp64_def)

lemma round64_minus: "round64 (- x) = - round64 x"
  by (simp add: round64_def round_half_even_minus)

lemma round64_nonneg:
  assumes "0 \<le> x"
  shows "0 \<le> round64 x"
proof (cases "x = 0")
  case True
  then show ?thesis by (simp add: round64_def)
next
  case False
  from assms ulp64_pos [of x] have "0 \<le> x / ulp64 x"
    by (intro divide_nonneg_pos)
  then have "of_int 0 \<le> x / ulp64 x" by simp
  then have "0 \<le> round_half_even (x / ulp64 x)" by (rule round_half_even_ge)
  then have "0 \<le> of_int (round_half_even (x / ulp64 x)) * ulp64 x"
    by (intro mult_nonneg_nonneg) simp_all
  with False show ?thesis by (simp add: round64_def)
qed

lemma pow2_mono_factor:
  assumes "j \<le> k"
  shows "pow2 k = of_int (2 ^ nat (k - j)) * pow2 j"
proof -
  have "pow2 k = (2::real) powr (of_int (k - j) + of_int j)" by (simp add: pow2_powr)
  also have "\<dots> = 2 powr of_int (k - j) * pow2 j"
    unfolding powr_add pow2_powr ..
  also have "(2::real) powr of_int (k - j) = of_int (2 ^ nat (k - j))"
  proof -
    from assms have e: "(of_int (k - j) :: real) = real (nat (k - j))"
      by (simp only: of_nat_nat diff_ge_0_iff_ge)
    have "(2::real) powr real (nat (k - j)) = 2 ^ nat (k - j)"
      by (rule powr_realpow) simp
    then show ?thesis by (simp only: e of_int_power of_int_numeral)
  qed
  finally show ?thesis .
qed

lemma round64_le_float:
  assumes x: "0 < x" "x \<le> b" and b: "round64 b = b"
  shows "round64 x \<le> b"
proof -
  define ex where "ex = max (\<lfloor>log 2 \<bar>x\<bar>\<rfloor> - 52) (- 1074)"
  define eb where "eb = max (\<lfloor>log 2 \<bar>b\<bar>\<rfloor> - 52) (- 1074)"
  from x have "log 2 x \<le> log 2 b" by simp
  then have "\<lfloor>log 2 x\<rfloor> \<le> \<lfloor>log 2 b\<rfloor>" by (rule floor_mono)
  with x have le: "ex \<le> eb" by (simp add: ex_def eb_def)
  have ux: "ulp64 x = pow2 ex" and ub: "ulp64 b = pow2 eb"
    by (simp_all add: ulp64_def ex_def eb_def)
  define nb where "nb = round_half_even (b / pow2 eb)"
  from x have "b \<noteq> 0" by simp
  with b have bn: "b = of_int nb * pow2 eb"
    by (simp add: round64_def ub nb_def)
  define n where "n = nb * 2 ^ nat (eb - ex)"
  have bx: "b = of_int n * pow2 ex"
    unfolding n_def by (subst bn) (simp add: pow2_mono_factor [OF le])
  have "x / pow2 ex \<le> b / pow2 ex"
    by (rule divide_right_mono) (use x pow2_pos [of ex] in simp_all)
  also have "b / pow2 ex = of_int n"
    by (subst bx) simp
  finally have "round_half_even (x / pow2 ex) \<le> n" by (rule round_half_even_le)
  then have "of_int (round_half_even (x / pow2 ex)) * pow2 ex \<le> of_int n * pow2 ex"
    by (simp add: mult_right_mono)
  with x bx show ?thesis by (simp add: round64_def ux)
qed

lemma round64_between:
  assumes "- b \<le> x" "x \<le> b" and b: "round64 b = b" "0 \<le> b"
  shows "- b \<le> round64 x \<and> round64 x \<le> b"
proof -
  consider "x = 0" | "0 < x" | "x < 0" by linarith
  then show ?thesis
  proof cases
    case 1
    with b show ?thesis by (simp add: round64_def)
  next
    case 2
    from round64_le_float [OF 2 assms(2) b(1)] round64_nonneg [of x] 2 b
    show ?thesis by simp
  next
    case 3
    then have p: "0 < - x" "- x \<le> b" using assms by simp_all
    from round64_le_float [OF p b(1)] round64_nonneg [of "- x"] 3 b
    show ?thesis by (simp add: round64_minus)
  qed
qed

lemma c_fmod_bounds:
  assumes "0 < y"
  shows "- y < c_fmod x y \<and> c_fmod x y < y"
proof (cases "0 \<le> x / y")
  case True
  let ?q = "of_int \<lfloor>x / y\<rfloor> :: real"
  have xy: "x / y * y = x" using assms by simp
  have "?q \<le> x / y" by simp
  with assms have "?q * y \<le> x / y * y" by (intro mult_right_mono) simp_all
  with xy have lo: "?q * y \<le> x" by simp
  have "x / y < ?q + 1" by linarith
  with assms have "x / y * y < (?q + 1) * y" by (intro mult_strict_right_mono) simp_all
  with xy have hi: "x < (?q + 1) * y" by simp
  from lo hi have "0 \<le> x - y * ?q \<and> x - y * ?q < y" by (simp add: algebra_simps)
  with True assms show ?thesis by (simp add: c_fmod_def py_int_def)
next
  case False
  let ?q = "of_int \<lceil>x / y\<rceil> :: real"
  have xy: "x / y * y = x" using assms by simp
  have "x / y \<le> ?q" by simp
  with assms have "x / y * y \<le> ?q * y" by (intro mult_right_mono) simp_all
  with xy have hi: "x \<le> ?q * y" by simp
  have "?q - 1 < x / y" by linarith
  with assms have "(?q - 1) * y < x / y * y" by (intro mult_strict_right_mono) simp_all
  with xy have lo: "(?q - 1) * y < x" by simp
  from lo hi have "- y < x - y * ?q \<and> x - y * ?q \<le> 0" by (simp add: algebra_simps)
  with False assms show ?thesis by (simp add: c_fmod_def py_int_def)
qed

lemma py_mod64_range:
  assumes y: "0 < y" "round64 y = y"
  shows "\<exists>r. py_mod64 x y = Inr r \<and> 0 \<le> r \<and> r \<le> y"
proof -
  define m where "m = c_fmod x y"
  from c_fmod_bounds [OF y(1), of x] have m: "- y < m" "m < y" by (simp_all add: m_def)
  show ?thesis
  proof (cases "m < 0")
    case True
    with m have p: "0 < m + y" "m + y \<le> y" by simp_all
    from round64_le_float [OF p y(2)] round64_nonneg [of "m + y"] p
    have "0 \<le> round64 (m + y) \<and> round64 (m + y) \<le> y" by simp
    with True y(1) show ?thesis
      by (simp add: py_mod64_def Let_def m_def [symmetric])
  next
    case False
    with m y(1) show ?thesis
      by (simp add: py_mod64_def Let_def m_def [symmetric])
  qed
qed

lemma periodic_boundary_conditions64_range:
  assumes b: "0 < b" "round64 b = b" and b2: "round64 (2 * b) = 2 * b"
  shows "\<exists>w. periodic_boundary_conditions64 v b = Inr w \<and> 0 \<le> w \<and> w \<le> b"
proof -
  from b(1) have y: "0 < 2 * b" by simp
  from py_mod64_range [OF y b2, of v] obtain r
    where r: "py_mod64 v (2 * b) = Inr r" "0 \<le> r" "r \<le> 2 * b" by blast
  define d where "d = round64 (r - b)"
  from r have "- b \<le> r - b" "r - b \<le> b" by simp_all
  from round64_between [OF this b(2)] b(1) have d: "- b \<le> d" "d \<le> b"
    by (simp_all add: d_def)
  then have a: "0 \<le> b - \<bar>d\<bar>" "b - \<bar>d\<bar> \<le> b" "- b \<le> b - \<bar>d\<bar>" using b(1) by simp_all
  from round64_between [OF a(3) a(2) b(2)] b(1) round64_nonneg [OF a(1)]
  have "0 \<le> round64 (b - \<bar>d\<bar>) \<and> round64 (b - \<bar>d\<bar>) \<le> b" by simp
  with r(1) show ?thesis
    by (simp add: periodic_boundary_conditions64_def b2 d_def)
qed

lemma round64_eval:
  assumes "pow2 k \<le> \<bar>x\<bar>" "\<bar>x\<bar> < pow2 (k + 1)"
  shows "round64 x = of_int (round_half_even (x / pow2 (max (k - 52) (- 1074))))
                       * pow2 (max (k - 52) (- 1074))"
proof -
  have "x \<noteq> 0"
  proof
    assume "x = 0"
    with assms(1) have "pow2 k \<le> 0" by simp
    with pow2_pos [of k] show False by linarith
  qed
  then show ?thesis by (simp add: round64_def ulp64_eval [OF assms])
qed

lemma round64_zero [simp]: "round64 0 = 0"
  by (simp add: round64_def)

lemma round64_one [simp]: "round64 1 = 1"
  by (subst round64_eval [of 0]) (simp_all add: pow2_def round_half_even_def Let_def)

lemma round64_two [simp]: "round64 2 = 2"
  by (subst round64_eval [of 1]) (simp_all add: pow2_def round_half_even_def Let_def)

lemma round64_tenth64: "round64 tenth64 = tenth64"
  by (subst round64_eval [of "- 4"])
     (simp_all add: pow2_def round_half_even_def Let_def tenth64_def)

lemma round64_two_tenth64: "round64 (2 * tenth64) = 2 * tenth64"
  by (subst round64_eval [of "- 3"])
     (simp_all add: pow2_def round_half_even_def Let_def tenth64_def)

lemma wrap64_tenth:
  "periodic_boundary_conditions64 tenth64 1 = Inr (900719925474099 / 2 ^ 53)"
proof -
  have m: "py_mod64 tenth64 2 = Inr tenth64"
    by (simp add: py_mod64_def c_fmod_def py_int_def tenth64_def Let_def)
  have d: "round64 (tenth64 - 1) = - (8106479329266893 / 2 ^ 53)"
    by (subst round64_eval [of "- 1"])
       (simp_all add: pow2_def round_half_even_def Let_def tenth64_def)
  have w: "round64 (1 - 8106479329266893 / 2 ^ 53) = 900719925474099 / 2 ^ 53"
    by (subst round64_eval [of "- 4"])
       (simp_all add: pow2_def round_half_even_def Let_def)
  show ?thesis
    using m d w by (simp add: periodic_boundary_conditions64_def)
qed

lemma tenth64_shifted:
  "round64 (tenth64 + round64 (2 * 1)) = 4728779608739021 / 2 ^ 51"
proof -
  have "round64 (tenth64 + 2) = 4728779608739021 / 2 ^ 51"
    by (subst round64_eval [of 1])
       (simp_all add: pow2_def round_half_even_def Let_def tenth64_def)
  then show ?thesis by simp
qed

lemma wrap64_tenth_shifted:
  "periodic_boundary_conditions64 (4728779608739021 / 2 ^ 51) 1
   = Inr (900719925474100 / 2 ^ 53)"
proof -
  have m: "py_mod64 (4728779608739021 / 2 ^ 51) 2 = Inr (225179981368525 / 2 ^ 51)"
    by (simp add: py_mod64_def c_fmod_def py_int_def Let_def)
  have d: "round64 (225179981368525 / 2 ^ 51 - 1) = - (8106479329266892 / 2 ^ 53)"
    by (subst round64_eval [of "- 1"])
       (simp_all add: pow2_def round_half_even_def Let_def)
  have w: "round64 (1 - 8106479329266892 / 2 ^ 53) = 900719925474100 / 2 ^ 53"
    by (subst round64_eval [of "- 4"])
       (simp_all add: pow2_def round_half_even_def Let_def)
  show ?thesis
    using m d w by (simp add: periodic_boundary_conditions64_def)
qed

lemma wrap64_one: "periodic_boundary_conditions64 1 1 = Inr 1"
proof -
  have m: "py_mod64 1 2 = Inr 1"
    by (simp add: py_mod64_def c_fmod_def py_int_def Let_def)
  show ?thesis
    using m by (simp add: periodic_boundary_conditions64_def)
qed

lemma rescale64_above:
  "rescale_parameter64 1 (- tenth64) (2 * tenth64) 0 1
   = Inr (7205759403792795 / 2 ^ 55)"
proof -
  define S :: real where "S = 5404319552844596 / 2 ^ 54"
  have d: "round64 (1 - 0) = 1" by simp
  have s: "round64 (2 * tenth64 - - tenth64) = S"
    by (subst round64_eval [of "- 2"])
       (simp_all add: pow2_def round_half_even_def Let_def tenth64_def S_def)
  have sc: "round64 (S / 1) = S"
    by (subst round64_eval [of "- 2"])
       (simp_all add: pow2_def round_half_even_def Let_def S_def)
  have z: "round64 (S * 0) = 0" by simp
  have b: "round64 (- tenth64 - 0) = - tenth64"
    by (simp add: round64_minus round64_tenth64)
  have m1: "round64 (S * 1) = S" using sc by simp
  have r: "round64 (S + - tenth64) = 7205759403792795 / 2 ^ 55"
    by (subst round64_eval [of "- 3"])
       (simp_all add: pow2_def round_half_even_def Let_def tenth64_def S_def)
  show ?thesis
    unfolding rescale_parameter64_def Let_def d s sc z b m1 r by simp
qed

lemma is_float64_one: "is_float64 1"
  by (simp add: is_float64_def)

lemma is_float64_two: "is_float64 (2 * 1)"
  by (simp add: is_float64_def)

lemma is_float64_tenth64: "is_float64 tenth64"
  by (simp add: is_float64_def round64_tenth64) (simp add: tenth64_def)

lemma wrap_exact_tenth64:
  "periodic_boundary_conditions tenth64 1 = Inr tenth64
   \<and> periodic_boundary_conditions (tenth64 + 2 * 1) 1 = Inr tenth64"
  by (simp add: periodic_boundary_conditions_def py_mod_def tenth64_def)

text \<open>
  Claim C8 (amended). Computed in float64 arithmetic, the wrap function returns a value
  in \<open>[0, b]\<close> for every finite float \<open>v\<close> and every bound \<open>b > 0\<close> such that
  \<open>b\<close> and \<open>2 b\<close> are finite floats. The period \<open>2 b\<close> of the wrap function, and
  the bounds \<open>lo \<le> y \<le> hi\<close> on the result \<open>y\<close> of wrapping with bound 1 and rescaling
  from the search interval \<open>[0, 1]\<close> to \<open>[lo, hi]\<close> with \<open>lo \<le> hi\<close>, hold for the
  exact real-valued formulas. They do not hold for the float64 results: wrapping
  \<^verbatim>\<open>0.1\<close> and \<^verbatim>\<open>0.1 + 2\<close> with bound 1 gives two different floats, and rescaling
  the wrapped value of \<^verbatim>\<open>1.0\<close> to \<^verbatim>\<open>[-0.1, 0.2]\<close> gives a float above \<^verbatim>\<open>0.2\<close>.
\<close>

theorem wrap_float_range_exact_period:
  "(0 < b \<and> is_float64 b \<and> is_float64 (2 * b) \<and> is_float64 v
      \<longrightarrow> (\<exists>w. periodic_boundary_conditions64 v b = Inr w \<and> 0 \<le> w \<and> w \<le> b))
   \<and> (0 < b \<longrightarrow> (\<exists>w. periodic_boundary_conditions v b = Inr w \<and> 0 \<le> w \<and> w \<le> b
                   \<and> periodic_boundary_conditions (v + 2 * b) b = Inr w))
   \<and> (lo \<le> hi \<longrightarrow> (\<exists>w y. periodic_boundary_conditions x 1 = Inr w
                   \<and> rescale_parameter w lo hi 0 1 = Inr y \<and> lo \<le> y \<and> y \<le> hi))"
proof (intro conjI impI)
  assume "0 < b \<and> is_float64 b \<and> is_float64 (2 * b) \<and> is_float64 v"
  then have "0 < b" "round64 b = b" "round64 (2 * b) = 2 * b"
    by (simp_all add: is_float64_def)
  then show "\<exists>w. periodic_boundary_conditions64 v b = Inr w \<and> 0 \<le> w \<and> w \<le> b"
    by (rule periodic_boundary_conditions64_range)
next
  assume b: "0 < b"
  from periodic_boundary_conditions_range [OF b, of v] obtain w
    where w: "periodic_boundary_conditions v b = Inr w" "0 \<le> w" "w \<le> b" by blast
  from b have "b \<noteq> 0" by simp
  from periodic_boundary_conditions_period [OF this, of v] w
  show "\<exists>w. periodic_boundary_conditions v b = Inr w \<and> 0 \<le> w \<and> w \<le> b
            \<and> periodic_boundary_conditions (v + 2 * b) b = Inr w"
    by simp
next
  assume le: "lo \<le> hi"
  from periodic_boundary_conditions_range [of 1 x] obtain w
    where w: "periodic_boundary_conditions x 1 = Inr w" "0 \<le> w" "w \<le> 1" by auto
  have y: "rescale_parameter w lo hi 0 1 = Inr ((hi - lo) * w + lo)"
    by (simp add: rescale_parameter_def)
  from le w have "0 \<le> (hi - lo) * w" by simp
  moreover from le w have "(hi - lo) * w \<le> (hi - lo) * 1"
    by (intro mult_left_mono) simp_all
  ultimately have "lo \<le> (hi - lo) * w + lo \<and> (hi - lo) * w + lo \<le> hi" by simp
  with w y show "\<exists>w y. periodic_boundary_conditions x 1 = Inr w
            \<and> rescale_parameter w lo hi 0 1 = Inr y \<and> lo \<le> y \<and> y \<le> hi"
    by simp
qed

theorem wrap_float_range_exact_period_witness:
  "(0::real) < 1 \<and> is_float64 1 \<and> is_float64 (2 * 1) \<and> is_float64 tenth64
   \<and> periodic_boundary_conditions64 tenth64 1 = Inr (900719925474099 / 2 ^ 53)
   \<and> (0::real) \<le> 900719925474099 / 2 ^ 53 \<and> (900719925474099 / 2 ^ 53 :: real) \<le> 1
   \<and> periodic_boundary_conditions tenth64 1 = Inr tenth64
   \<and> periodic_boundary_conditions (tenth64 + 2 * 1) 1 = Inr tenth64
   \<and> (- 16 :: real) \<le> 16
   \<and> periodic_boundary_conditions (5 / 2) 1 = Inr (1 / 2)
   \<and> rescale_parameter (1 / 2) (- 16) 16 0 1 = Inr 0"
proof -
  have r: "periodic_boundary_conditions (5 / 2) 1 = Inr (1 / 2)"
    "rescale_parameter (1 / 2) (- 16) 16 0 1 = Inr 0"
    by (simp_all add: periodic_boundary_conditions_def py_mod_def rescale_parameter_def)
  from wrap_float_range_exact_period [of 1 tenth64 "- 16" 16 "5 / 2"]
    is_float64_one is_float64_two is_float64_tenth64 wrap64_tenth
  have "(0::real) \<le> 900719925474099 / 2 ^ 53 \<and> (900719925474099 / 2 ^ 53 :: real) \<le> 1"
    by simp
  with is_float64_one is_float64_two is_float64_tenth64 r wrap64_tenth wrap_exact_tenth64
  show ?thesis by simp
qed

theorem wrap_float_period_counterexample:
  "is_float64 tenth64
   \<and> periodic_boundary_conditions64 tenth64 1
       \<noteq> periodic_boundary_conditions64 (round64 (tenth64 + round64 (2 * 1))) 1
   \<and> periodic_boundary_conditions64 1 1 = Inr 1
   \<and> rescale_parameter64 1 (- tenth64) (2 * tenth64) 0 1 = Inr (7205759403792795 / 2 ^ 55)
   \<and> 2 * tenth64 < 7205759403792795 / 2 ^ 55"
proof -
  have "periodic_boundary_conditions64 tenth64 1
       \<noteq> periodic_boundary_conditions64 (round64 (tenth64 + round64 (2 * 1))) 1"
    unfolding tenth64_shifted wrap64_tenth wrap64_tenth_shifted by simp
  moreover have "2 * tenth64 < 7205759403792795 / 2 ^ 55"
    by (simp add: tenth64_def)
  ultimately show ?thesis
    using is_float64_tenth64 wrap64_one rescale64_above by blast
qed

subsection \<open>Properties of the trial\<close>

text \<open>
  Claim C6. In validation mode the returned pair is \<open>(success, caught)\<close>:
  \<open>caught\<close> is 1 exactly when the object span and the agent span overlap, and
  \<open>success\<close> is 1 exactly when being caught agrees with the presented diameter
  exceeding the comparison diameter. For genuine spans (non-negative half-widths) the
  overlap test is the same as the two closed intervals sharing a point.
\<close>

theorem trial_validation_outcome:
  fixes w :: "('n, 'a, 'b) world"
  defines "lo_b \<equiv> center_xpos (ball w) - size_circle (ball w)"
      and "hi_b \<equiv> center_xpos (ball w) + size_circle (ball w)"
      and "lo_a \<equiv> xpos (agent w) - radius (agent w)"
      and "hi_a \<equiv> xpos (agent w) + radius (agent w)"
  shows "trial_outcome cfg True p c w
           = Inr (Validation (if (lo_b \<le> hi_a \<and> lo_a \<le> hi_b) = (c < p) then 1 else 0)
                             (if lo_b \<le> hi_a \<and> lo_a \<le> hi_b then 1 else 0))
         \<and> (0 \<le> size_circle (ball w) \<and> 0 \<le> radius (agent w)
              \<longrightarrow> ((lo_b \<le> hi_a \<and> lo_a \<le> hi_b) \<longleftrightarrow> {lo_b..hi_b} \<inter> {lo_a..hi_a} \<noteq> {}))"
proof (intro conjI impI)
  show "trial_outcome cfg True p c w
           = Inr (Validation (if (lo_b \<le> hi_a \<and> lo_a \<le> hi_b) = (c < p) then 1 else 0)
                             (if lo_b \<le> hi_a \<and> lo_a \<le> hi_b then 1 else 0))"
    unfolding lo_b_def hi_b_def lo_a_def hi_a_def
    by (simp add: trial_outcome_def Let_def not_less)
next
  assume nn: "0 \<le> size_circle (ball w) \<and> 0 \<le> radius (agent w)"
  then have b: "lo_b \<le> hi_b" and a: "lo_a \<le> hi_a"
    unfolding lo_b_def hi_b_def lo_a_def hi_a_def by simp_all
  have "{lo_b..hi_b} \<inter> {lo_a..hi_a} = {max lo_b lo_a..min hi_b hi_a}"
    by auto
  with a b show "(lo_b \<le> hi_a \<and> lo_a \<le> hi_b) \<longleftrightarrow> {lo_b..hi_b} \<inter> {lo_a..hi_a} \<noteq> {}"
    by auto
qed

theorem trial_validation_outcome_witness:
  "(0::real) \<le> 10 \<and> (0::real) \<le> 15
   \<and> trial_outcome parameter_defaults True 50 20
        (demo_world\<lparr>agent := (agent demo_world)\<lparr>xpos := 200\<rparr>,
                    ball := (ball demo_world)\<lparr>size_circle := 10\<rparr>\<rparr>)
       = Inr (Validation 1 1)
   \<and> {200 - 10 .. 200 + 10} \<inter> {200 - 15 .. 200 + (15::real)} \<noteq> {}"
  using trial_validation_outcome [where w = "demo_world\<lparr>agent := (agent demo_world)\<lparr>xpos := 200\<rparr>,
                    ball := (ball demo_world)\<lparr>size_circle := 10\<rparr>\<rparr>"
           and cfg = parameter_defaults and p = 50 and c = 20]
  by (simp add: demo_world_def)

text \<open>
  Claim C10. In fitness mode, with a positive \<open>max_distance\<close>, the returned value
  lies in \<open>[0, 1]\<close>: it is the distance normalised and clamped at 1, or 1 minus it
  when the presented diameter is the larger; for equal diameters the clamped normalised
  distance itself is returned.
\<close>

theorem trial_fitness_range:
  fixes w :: "('n, 'a, 'b) world" and cfg :: config
  defines "nd \<equiv> min 1 (\<bar>center_xpos (ball w) - xpos (agent w)\<bar> / max_distance cfg)"
  assumes "0 < max_distance cfg"
  shows "trial_outcome cfg False p c w = Inr (Fitness (if c < p then 1 - nd else nd))
         \<and> 0 \<le> (if c < p then 1 - nd else nd) \<and> (if c < p then 1 - nd else nd) \<le> 1
         \<and> trial_outcome cfg False p p w = Inr (Fitness nd)"
proof -
  have "0 \<le> \<bar>center_xpos (ball w) - xpos (agent w)\<bar> / max_distance cfg"
    using assms(2) by simp
  then have "0 \<le> nd \<and> nd \<le> 1" unfolding nd_def by simp
  moreover have "trial_outcome cfg False p c w = Inr (Fitness (if c < p then 1 - nd else nd))" for p c
    using assms(2) unfolding nd_def
    by (simp add: trial_outcome_def Let_def min_def not_less)
  ultimately show ?thesis by auto
qed

theorem trial_fitness_range_witness:
  "0 < max_distance parameter_defaults
   \<and> trial_outcome parameter_defaults False 50 20 demo_world = Inr (Fitness 0)
   \<and> trial_outcome parameter_defaults False 30 30 demo_world = Inr (Fitness 1)"
  using trial_fitness_range [where cfg = parameter_defaults and w = demo_world and c = 20 and p = 50]
        trial_fitness_range [where cfg = parameter_defaults and w = demo_world and c = 30 and p = 30]
  by (simp add: demo_world_def parameter_defaults_def)

text \<open>
  Claim C9. Between the two phases only the ball is re-placed and re-sized and the
  agent's rays are reset. If resetting the rays leaves the controller alone, the
  controller state at the end of phase 1 is the one phase 2 starts from; the trial
  continues from exactly that world.
\<close>

theorem controller_state_carries_over:
  assumes "\<forall>a. nervous_system (reset_rays ops a) = nervous_system a"
  shows "nervous_system (agent (trial_resetup ops cfg c w1)) = nervous_system (agent w1)
         \<and> agent (trial_resetup ops cfg c w1) = reset_rays ops (agent w1)
         \<and> ball (trial_resetup ops cfg c w1)
             = set_size ops (c / 2)
                 (set_position_ball ops (initial_agent_x cfg)
                    (initial_agent_y cfg - (radius (agent w1) + agent_max_ray_length (agent w1) + c))
                    (ball w1))
         \<and> (presentation_loop ops cfg (trial_setup ops cfg p w) = Some w1
              \<longrightarrow> trial ops cfg w p c v
                    = (case comparison_loop ops cfg (trial_resetup ops cfg c w1) of
                         None \<Rightarrow> None
                       | Some w2 \<Rightarrow> Some (trial_outcome cfg v p c w2, w2)))"
  using assms by (simp add: trial_resetup_def trial_def Let_def)

theorem controller_state_carries_over_witness:
  "(\<forall>a. nervous_system (reset_rays demo_collaborators a) = nervous_system a)
   \<and> presentation_loop demo_collaborators parameter_defaults
         (trial_setup demo_collaborators parameter_defaults 50 demo_world)
       = Some \<lparr>agent = \<lparr>xpos = 200, ypos = 285, radius = 15, agent_max_ray_length = 220,
                            velocity_x = 0, nervous_system = 1\<rparr>,
                   ball = \<lparr>center_xpos = 200, center_ypos = 300, size_circle = 25\<rparr>\<rparr>
   \<and> nervous_system (agent (trial_resetup demo_collaborators parameter_defaults 20
         \<lparr>agent = \<lparr>xpos = 200, ypos = 285, radius = 15, agent_max_ray_length = 220,
                            velocity_x = 0, nervous_system = 1\<rparr>,
                   ball = \<lparr>center_xpos = 200, center_ypos = 300, size_circle = 25\<rparr>\<rparr>)) = 1
   \<and> trial demo_collaborators parameter_defaults demo_world 50 20 False
       = Some (Inr (Fitness 1),
               \<lparr>agent = \<lparr>xpos = 200, ypos = 285, radius = 15, agent_max_ray_length = 220,
                            velocity_x = 0, nervous_system = 2\<rparr>,
                   ball = \<lparr>center_xpos = 200, center_ypos = 330, size_circle = 10\<rparr>\<rparr>)"
proof -
  have a: "\<forall>a. nervous_system (reset_rays demo_collaborators a) = nervous_system a"
    by (simp add: demo_collaborators_def)
  have p: "presentation_loop demo_collaborators parameter_defaults
         (trial_setup demo_collaborators parameter_defaults 50 demo_world)
       = Some \<lparr>agent = \<lparr>xpos = 200, ypos = 285, radius = 15, agent_max_ray_length = 220,
                            velocity_x = 0, nervous_system = 1\<rparr>,
                   ball = \<lparr>center_xpos = 200, center_ypos = 300, size_circle = 25\<rparr>\<rparr>"
    by (simp add: presentation_loop.simps trial_setup_def demo_collaborators_def
          demo_world_def parameter_defaults_def Let_def initial_agent_x_def initial_agent_y_def)
  have c: "comparison_loop demo_collaborators parameter_defaults
         (trial_resetup demo_collaborators parameter_defaults 20
         \<lparr>agent = \<lparr>xpos = 200, ypos = 285, radius = 15, agent_max_ray_length = 220,
                            velocity_x = 0, nervous_system = 1\<rparr>,
                   ball = \<lparr>center_xpos = 200, center_ypos = 300, size_circle = 25\<rparr>\<rparr>)
       = Some \<lparr>agent = \<lparr>xpos = 200, ypos = 285, radius = 15, agent_max_ray_length = 220,
                            velocity_x = 0, nervous_system = 2\<rparr>,
                   ball = \<lparr>center_xpos = 200, center_ypos = 330, size_circle = 10\<rparr>\<rparr>"
    by (simp add: comparison_loop.simps trial_resetup_def demo_collaborators_def
          parameter_defaults_def Let_def initial_agent_x_def initial_agent_y_def)
  have o: "trial_outcome parameter_defaults False 50 20
             \<lparr>agent = \<lparr>xpos = 200, ypos = 285, radius = 15, agent_max_ray_length = 220,
                            velocity_x = 0, nervous_system = 2::nat\<rparr>,
                   ball = \<lparr>center_xpos = 200, center_ypos = 330, size_circle = 10\<rparr>\<rparr>
           = Inr (Fitness 1)"
    by (simp add: trial_outcome_def parameter_defaults_def Let_def)
  from controller_state_carries_over [OF a, where cfg = parameter_defaults and c = 20
         and p = 50 and w = demo_world and v = False and
         ?w1.0 = "\<lparr>agent = \<lparr>xpos = 200, ypos = 285, radius = 15, agent_max_ray_length = 220,
                            velocity_x = 0, nervous_system = 1\<rparr>,
                   ball = \<lparr>center_xpos = 200, center_ypos = 300, size_circle = 25\<rparr>\<rparr>"]
  show ?thesis using a p c o by simp
qed

subsection \<open>Loops\<close>

lemma forE_append: "forE (xs @ ys) body s = bindE (forE xs body s) (forE ys body)"
  by (induction xs arbitrary: s) (auto simp: bindE_def split: sum.splits)

lemma forE_upt_eq:
  assumes "a \<le> b"
    and "\<And>k. a \<le> k \<Longrightarrow> k < b \<Longrightarrow> body k (F k) = Inr (F (Suc k))"
  shows "forE [a..<b] body (F a) = Inr (F b)"
  using assms
proof (induction b)
  case 0
  then show ?case by simp
next
  case (Suc b)
  show ?case
  proof (cases "a = Suc b")
    case True
    then show ?thesis by simp
  next
    case False
    with Suc.prems have le: "a \<le> b" by simp
    have "forE [a..<b] body (F a) = Inr (F b)"
      using le Suc.prems(2) by (intro Suc.IH) simp_all
    moreover have "body b (F b) = Inr (F (Suc b))"
      using le Suc.prems(2) by simp
    ultimately show ?thesis
      using le by (simp add: forE_append)
  qed
qed

lemma forE_upt_invariant:
  assumes "a \<le> b" and "P a s"
    and "\<And>k t. a \<le> k \<Longrightarrow> k < b \<Longrightarrow> P k t \<Longrightarrow> \<exists>t'. body k t = Inr t' \<and> P (Suc k) t'"
  shows "\<exists>t. forE [a..<b] body s = Inr t \<and> P b t"
  using assms
proof (induction b)
  case 0
  then show ?case by simp
next
  case (Suc b)
  show ?case
  proof (cases "a = Suc b")
    case True
    with Suc.prems(2) show ?thesis by simp
  next
    case False
    with Suc.prems have le: "a \<le> b" by simp
    have "\<exists>t. forE [a..<b] body s = Inr t \<and> P b t"
      using le Suc.prems(2,3) by (intro Suc.IH) simp_all
    then obtain t where t: "forE [a..<b] body s = Inr t" "P b t" by blast
    from Suc.prems(3) [of b t] le t obtain t' where "body b t = Inr t'" "P (Suc b) t'"
      by auto
    with t le show ?thesis by (simp add: forE_append)
  qed
qed

subsection \<open>Properties of the fitness reduction\<close>

lemma inner_off_diagonal:
  assumes sq: "shape0 m = n" "shape1 m = n" and i: "i < n"
    and ab: "a \<le> b" "b \<le> n" and off: "i < a \<or> b \<le> i"
  shows "forE [a..<b] (eval_fitness_inner m i) st
         = Inr (st\<lparr>num_sums := num_sums st + (b - a),
                   col_sum := col_sum st + (\<Sum>j = a..<b. entries m j i),
                   row_sum := row_sum st + (\<Sum>j = a..<b. entries m i j)\<rparr>)"
proof -
  let ?F = "\<lambda>k. st\<lparr>num_sums := num_sums st + (k - a),
                   col_sum := col_sum st + (\<Sum>j = a..<k. entries m j i),
                   row_sum := row_sum st + (\<Sum>j = a..<k. entries m i j)\<rparr>"
  have "forE [a..<b] (eval_fitness_inner m i) (?F a) = Inr (?F b)"
  proof (rule forE_upt_eq [OF ab(1)])
    fix k assume k: "a \<le> k" "k < b"
    with off have "i \<noteq> k" by auto
    moreover from k ab sq i have "getitem m k i = Inr (entries m k i)"
      "getitem m i k = Inr (entries m i k)" by (simp_all add: getitem_def)
    ultimately show "eval_fitness_inner m i k (?F k) = Inr (?F (Suc k))"
      using k by (simp add: eval_fitness_inner_def Suc_diff_le)
  qed
  then show ?thesis by simp
qed

lemma outer_step:
  assumes sq: "shape0 m = n" "shape1 m = n" and i: "1 \<le> i" "Suc i < n"
  shows "eval_fitness_outer m i st
         = Inr \<lparr>col_avg = col_avg st + split_col_average m i,
                row_avg = row_avg st + split_row_average m i,
                col_sum = (\<Sum>j = Suc i..<n. entries m j i),
                row_sum = (\<Sum>j = Suc i..<n. entries m i j),
                num_sums = n - Suc i\<rparr>"
proof -
  let ?s0 = "st\<lparr>col_sum := 0, row_sum := 0, num_sums := 0\<rparr>"
  have in_n: "i < n" using i by simp
  have "[0..<i + (n - i)] = [0..<i] @ [i..<i + (n - i)]"
    by (rule upt_add_eq_append) simp
  with in_n have split: "[0..<n] = [0..<i] @ i # [Suc i..<n]"
    by (simp add: upt_conv_Cons)
  have p1: "forE [0..<i] (eval_fitness_inner m i) ?s0
            = Inr (?s0\<lparr>num_sums := i, col_sum := (\<Sum>j = 0..<i. entries m j i),
                        row_sum := (\<Sum>j = 0..<i. entries m i j)\<rparr>)"
    using inner_off_diagonal [OF sq in_n, of 0 i ?s0] i by simp
  let ?s1 = "?s0\<lparr>num_sums := i, col_sum := (\<Sum>j = 0..<i. entries m j i),
                        row_sum := (\<Sum>j = 0..<i. entries m i j)\<rparr>"
  let ?s2 = "st\<lparr>col_avg := col_avg st + (\<Sum>j = 0..<i. entries m j i) / real i,
                 row_avg := row_avg st + (\<Sum>j = 0..<i. entries m i j) / real i,
                 col_sum := 0, row_sum := 0, num_sums := 0\<rparr>"
  have p2: "eval_fitness_inner m i i ?s1 = Inr ?s2"
    using i by (simp add: eval_fitness_inner_def py_truediv_def)
  have p3: "forE [Suc i..<n] (eval_fitness_inner m i) ?s2
            = Inr (?s2\<lparr>num_sums := n - Suc i,
                        col_sum := (\<Sum>j = Suc i..<n. entries m j i),
                        row_sum := (\<Sum>j = Suc i..<n. entries m i j)\<rparr>)"
    using inner_off_diagonal [OF sq in_n, of "Suc i" n ?s2] i by simp
  have full: "forE [0..<n] (eval_fitness_inner m i) ?s0
            = Inr (?s2\<lparr>num_sums := n - Suc i,
                        col_sum := (\<Sum>j = Suc i..<n. entries m j i),
                        row_sum := (\<Sum>j = Suc i..<n. entries m i j)\<rparr>)"
    unfolding split forE_append
    by (simp only: p1 p2 p3 bindE_Inr forE.simps)
  have nz: "int (n - Suc i) \<noteq> 0" using i by simp
  show ?thesis
    unfolding eval_fitness_outer_def sq full
    using nz
    by (simp add: py_truediv_def split_col_average_def split_row_average_def sq)
qed


lemma eval_fitness_square:
  assumes n: "3 \<le> n" and sq: "shape0 m = n" "shape1 m = n"
  shows "eval_fitness m
         = Inr (min ((\<Sum>i = 1..<n - 1. split_col_average m i) / real (n - 2) / 2)
                    ((\<Sum>i = 1..<n - 1. split_row_average m i) / real (n - 2) / 2))"
proof -
  let ?P = "\<lambda>k st. col_avg st = (\<Sum>i = 1..<k. split_col_average m i)
                  \<and> row_avg st = (\<Sum>i = 1..<k. split_row_average m i)"
  let ?s0 = "\<lparr>col_avg = 0, row_avg = 0, col_sum = 0, row_sum = 0, num_sums = 0\<rparr>"
  have "\<exists>t. forE [1..<n - 1] (eval_fitness_outer m) ?s0 = Inr t \<and> ?P (n - 1) t"
  proof (rule forE_upt_invariant)
    show "1 \<le> n - 1" using n by simp
    show "?P 1 ?s0" by simp
  next
    fix k and t :: fitness_sums
    assume k: "1 \<le> k" "k < n - 1" and t: "?P k t"
    from k have "Suc k < n" by simp
    note step = outer_step [OF sq k(1) this, of t]
    let ?t' = "\<lparr>col_avg = col_avg t + split_col_average m k,
                row_avg = row_avg t + split_row_average m k,
                col_sum = (\<Sum>j = Suc k..<n. entries m j k),
                row_sum = (\<Sum>j = Suc k..<n. entries m k j),
                num_sums = n - Suc k\<rparr>"
    have "?P (Suc k) ?t'" using t k(1) by (simp add: sum.atLeastLessThan_Suc)
    with step show "\<exists>t'. eval_fitness_outer m k t = Inr t' \<and> ?P (Suc k) t'"
      by blast
  qed
  then obtain t where t: "forE [1..<n - 1] (eval_fitness_outer m) ?s0 = Inr t"
    "?P (n - 1) t" by blast
  have nz: "int n - 2 \<noteq> 0" using n by simp
  have cast: "real_of_int (int n - 2) = real (n - 2)" using n by simp
  have "eval_fitness m = Inr (min (col_avg t / real_of_int (int n - 2) / 2)
                                  (row_avg t / real_of_int (int n - 2) / 2))"
    unfolding eval_fitness_def sq t(1) using nz by (simp add: py_truediv_def)
  then show ?thesis unfolding cast using t(2) by simp
qed

lemma sum_constant_upt:
  fixes f :: "nat \<Rightarrow> real"
  assumes "\<And>j. a \<le> j \<Longrightarrow> j < b \<Longrightarrow> f j = c"
  shows "(\<Sum>j = a..<b. f j) = real (b - a) * c"
proof -
  have "(\<Sum>j = a..<b. f j) = (\<Sum>j = a..<b. c)"
    by (rule sum.cong) (simp_all add: assms)
  then show ?thesis by simp
qed

lemma split_average_constant:
  assumes off: "\<forall>i<n. \<forall>j<n. i \<noteq> j \<longrightarrow> entries m i j = c"
    and sq: "shape1 m = n" and i: "1 \<le> i" "Suc i < n"
  shows "split_col_average m i = 2 * c" and "split_row_average m i = 2 * c"
proof -
  have lo_c: "(\<Sum>j = 0..<i. entries m j i) = real (i - 0) * c"
    by (rule sum_constant_upt) (use off i in auto)
  have hi_c: "(\<Sum>j = Suc i..<n. entries m j i) = real (n - Suc i) * c"
    by (rule sum_constant_upt) (use off i in auto)
  have lo_r: "(\<Sum>j = 0..<i. entries m i j) = real (i - 0) * c"
    by (rule sum_constant_upt) (use off i in auto)
  have hi_r: "(\<Sum>j = Suc i..<n. entries m i j) = real (n - Suc i) * c"
    by (rule sum_constant_upt) (use off i in auto)
  have nz: "real (i - 0) \<noteq> 0" "real (n - Suc i) \<noteq> 0" using i by simp_all
  have two: "x \<noteq> 0 \<Longrightarrow> y \<noteq> 0 \<Longrightarrow> x * c / x + y * c / y = 2 * c" for x y :: real
    by simp
  show "split_col_average m i = 2 * c"
    unfolding split_col_average_def sq lo_c hi_c using nz two by simp
  show "split_row_average m i = 2 * c"
    unfolding split_row_average_def sq lo_r hi_r using nz two by simp
qed

lemma eval_fitness_constant:
  assumes n: "3 \<le> n" and sq: "shape0 m = n" "shape1 m = n"
    and off: "\<forall>i<n. \<forall>j<n. i \<noteq> j \<longrightarrow> entries m i j = c"
  shows "eval_fitness m = Inr c"
proof -
  have c: "(\<Sum>i = 1..<n - 1. split_col_average m i) = real (n - 1 - 1) * (2 * c)"
    by (rule sum_constant_upt) (use split_average_constant(1) [OF off sq(2)] in simp)
  have r: "(\<Sum>i = 1..<n - 1. split_row_average m i) = real (n - 1 - 1) * (2 * c)"
    by (rule sum_constant_upt) (use split_average_constant(2) [OF off sq(2)] in simp)
  have "real (n - 1 - 1) \<noteq> 0" "n - 2 = n - 1 - 1" using n by simp_all
  then show ?thesis
    unfolding eval_fitness_square [OF n sq] c r by simp
qed

text \<open>
  Claim C1 (amended). For a square matrix of size \<open>n \<ge> 3\<close> the reduction adds, for
  each interior index \<open>i\<close>, the mean of column \<open>i\<close> over \<open>j < i\<close> and the mean
  over \<open>j > i\<close> (two means per index, and likewise for rows), and returns
  \<open>min (columns / (n - 2)) (rows / (n - 2)) / 2\<close>. With all off-diagonal cells 1
  this is 1, with all off-diagonal cells 0 it is 0.
\<close>

theorem eval_fitness_split_averages:
  assumes "3 \<le> n" and "shape0 m = n" and "shape1 m = n"
  shows "eval_fitness m
           = Inr (min ((\<Sum>i = 1..<n - 1. split_col_average m i) / real (n - 2))
                      ((\<Sum>i = 1..<n - 1. split_row_average m i) / real (n - 2)) / 2)
         \<and> ((\<forall>i<n. \<forall>j<n. i \<noteq> j \<longrightarrow> entries m i j = 1) \<longrightarrow> eval_fitness m = Inr 1)
         \<and> ((\<forall>i<n. \<forall>j<n. i \<noteq> j \<longrightarrow> entries m i j = 0) \<longrightarrow> eval_fitness m = Inr 0)"
proof -
  have half: "min (x / 2) (y / 2) = min x y / 2" for x y :: real
    by (simp add: min_def)
  show ?thesis
    using eval_fitness_constant [OF assms]
    by (simp only: eval_fitness_square [OF assms] half) blast
qed

text \<open>Claim C1 as stated fails: on the 3 by 3 matrix of ones the result is not 0.5.\<close>

theorem eval_fitness_ones_counterexample:
  "eval_fitness (off_diagonal 3 0 1) \<noteq> Inr (1 / 2)"
proof -
  have "eval_fitness (off_diagonal 3 0 1) = Inr 1"
    by (rule eval_fitness_constant [of 3]) (simp_all add: off_diagonal_def)
  then show ?thesis by simp
qed

theorem eval_fitness_split_averages_witness:
  "(3::nat) \<le> 3 \<and> shape0 (off_diagonal 3 7 1) = 3 \<and> shape1 (off_diagonal 3 7 1) = 3
   \<and> entries (off_diagonal 3 7 1) 0 1 = 1 \<and> entries (off_diagonal 3 7 1) 2 1 = 1
   \<and> entries (off_diagonal 3 7 1) 1 1 = 7
   \<and> eval_fitness (off_diagonal 3 7 1) = Inr 1
   \<and> entries (off_diagonal 3 7 0) 1 0 = 0 \<and> entries (off_diagonal 3 7 0) 1 2 = 0
   \<and> eval_fitness (off_diagonal 3 7 0) = Inr 0"
proof -
  have n: "(3::nat) \<le> 3" by simp
  have s1: "shape0 (off_diagonal 3 7 1) = 3" "shape1 (off_diagonal 3 7 1) = 3"
    and s0: "shape0 (off_diagonal 3 7 0) = 3" "shape1 (off_diagonal 3 7 0) = 3"
    by (simp_all add: off_diagonal_def)
  have o1: "\<forall>i<3. \<forall>j<3. i \<noteq> j \<longrightarrow> entries (off_diagonal 3 7 1) i j = 1"
    and o0: "\<forall>i<3. \<forall>j<3. i \<noteq> j \<longrightarrow> entries (off_diagonal 3 7 0) i j = 0"
    by (simp_all add: off_diagonal_def)
  from eval_fitness_split_averages [OF n s1] o1
  have "eval_fitness (off_diagonal 3 7 1) = Inr 1" by blast
  moreover from eval_fitness_split_averages [OF n s0] o0
  have "eval_fitness (off_diagonal 3 7 0) = Inr 0" by blast
  ultimately show ?thesis using s1 by (simp add: off_diagonal_def)
qed

text \<open>
  Claim C7 (amended). The reduction has no guard of its own. With two rows the final
  division by \<open>shape0 - 2 = 0\<close> raises \<open>ZeroDivisionError\<close>; with at most one row
  the divisor is negative and the value 0 is returned.
\<close>

theorem eval_fitness_unguarded:
  "(shape0 m = 2 \<longrightarrow> eval_fitness m = Inl ZeroDivisionError)
   \<and> (shape0 m \<le> 1 \<longrightarrow> eval_fitness m = Inr 0)"
proof (intro conjI impI)
  assume "shape0 m = 2"
  then show "eval_fitness m = Inl ZeroDivisionError"
    by (simp add: eval_fitness_def py_truediv_def)
next
  assume le: "shape0 m \<le> 1"
  then have nil: "[1..<shape0 m - 1] = []" by simp
  from le have "int (shape0 m) - 2 \<noteq> 0" by simp
  then show "eval_fitness m = Inr 0"
    unfolding eval_fitness_def nil by (simp add: py_truediv_def)
qed

text \<open>Claim C7 as stated fails: a 1 by 1 matrix yields a value and no error.\<close>

theorem eval_fitness_degenerate_counterexample:
  "eval_fitness (zeros 1 1) \<noteq> Inl ZeroDivisionError \<and> eval_fitness (zeros 1 1) = Inr 0"
  by (simp add: eval_fitness_def py_truediv_def zeros_def)

theorem eval_fitness_unguarded_witness:
  "shape0 (zeros 2 2) = 2 \<and> eval_fitness (zeros 2 2) = Inl ZeroDivisionError
   \<and> shape0 (zeros 0 0) \<le> 1 \<and> eval_fitness (zeros 0 0) = Inr 0"
  using eval_fitness_unguarded [of "zeros 2 2"] eval_fitness_unguarded [of "zeros 0 0"]
  by (simp add: zeros_def)

subsection \<open>Properties of the trial sweep\<close>

text \<open>Whatever the trials return, the sweep keeps the shape of the matrix and never
  writes a diagonal cell.\<close>

lemma forR_invariant:
  assumes "forR xs body s = Some (Inr t)" and "P s"
    and "\<And>k u u'. k \<in> set xs \<Longrightarrow> P u \<Longrightarrow> body k u = Some (Inr u') \<Longrightarrow> P u'"
  shows "P t"
  using assms
proof (induction xs arbitrary: s)
  case Nil
  then show ?case by simp
next
  case (Cons k ks)
  from Cons.prems(1) obtain u where u: "body k s = Some (Inr u)" "forR ks body u = Some (Inr t)"
    by (auto split: option.splits sum.splits)
  from Cons.prems(3) [of k s u] Cons.prems(2) u(1) have "P u" by simp
  moreover have "P v'" if "j \<in> set ks" "P v" "body j v = Some (Inr v')" for j v v'
    using Cons.prems(3) [of j v v'] that by simp
  ultimately show ?case using u(2) by (intro Cons.IH [of u])
qed

lemma run_trials_cell_frame:
  assumes "run_trials_cell ops cfg i j (rm, w) = Some (Inr (rm', w'))"
  shows "shape0 rm' = shape0 rm \<and> shape1 rm' = shape1 rm
         \<and> (\<forall>k. entries rm' k k = entries rm k k)"
  using assms
  by (auto simp: run_trials_cell_def Let_def setitem_def bindE_def
           split: if_splits option.splits sum.splits trial_result.splits prod.splits)

lemma run_trials_matrix_diagonal:
  assumes run: "run_trials_matrix ops cfg w = Some (Inr (rm, w'))"
    and n: "result_matrix_zeros cfg = Inr (zeros n n)"
  shows "shape0 rm = n \<and> shape1 rm = n \<and> (\<forall>k. entries rm k k = 0)"
proof -
  let ?P = "\<lambda>st. shape0 (fst st) = n \<and> shape1 (fst st) = n \<and> (\<forall>k. entries (fst st) k k = 0)"
  from run n have loops: "forR [0..<n] (\<lambda>i. forR [0..<n] (run_trials_cell ops cfg i))
                     (zeros n n, w) = Some (Inr (rm, w'))"
    by (simp add: run_trials_matrix_def zeros_def)
  have "?P (rm, w')"
  proof (rule forR_invariant [OF loops, of ?P])
    show "?P (zeros n n, w)" by (simp add: zeros_def)
  next
    fix i u u'
    assume u: "?P u" and row: "forR [0..<n] (run_trials_cell ops cfg i) u = Some (Inr u')"
    show "?P u'"
    proof (rule forR_invariant [OF row, of ?P])
      show "?P u" by (rule u)
    next
      fix j v v'
      assume v: "?P v" and cell: "run_trials_cell ops cfg i j v = Some (Inr v')"
      from run_trials_cell_frame [of ops cfg i j "fst v" "snd v" "fst v'" "snd v'"] cell v
      show "?P v'" by simp
    qed
  qed
  then show ?thesis by simp
qed

text \<open>
  Claim C2. With the default options the sweep allocates a 10 by 10 matrix, since the
  size is \<open>int (50 / 5)\<close>; the grid the claim describes,
  \<open>floor ((50 - 20) / 5)\<close>, has 6 sizes. The presented diameter at the last index
  is \<open>9 * 5 + 20 = 65\<close>, beyond \<open>circle_max_diameter = 50\<close>.
\<close>

theorem run_trials_grid_defaults:
  "result_matrix_zeros parameter_defaults = Inr (zeros 10 10)
   \<and> \<lfloor>(circle_max_diameter parameter_defaults - circle_min_diameter parameter_defaults)
        / circle_difference parameter_defaults\<rfloor> = 6
   \<and> real 9 * circle_difference parameter_defaults + circle_min_diameter parameter_defaults = 65
   \<and> circle_max_diameter parameter_defaults = 50"
  by (simp add: result_matrix_zeros_def parameter_defaults_def py_int_def)

subsection \<open>Properties of the decoder, asymmetric mode\<close>

lemma mapE_Inr:
  assumes "\<And>x. x \<in> set xs \<Longrightarrow> f x = Inr (g x)"
  shows "mapE f xs = Inr (map g xs)"
  using assms by (induction xs) simp_all

lemma periodic_boundary_conditions_one:
  "periodic_boundary_conditions v 1 = Inr (1 - \<bar>v - 2 * of_int \<lfloor>v / 2\<rfloor> - 1\<bar>)"
  by (simp add: periodic_boundary_conditions_def py_mod_def)

lemma rescaled_segment_map:
  assumes "max_search_value cfg \<noteq> min_search_value cfg"
  shows "rescaled_segment cfg seg lo hi
         = Inr (map (\<lambda>v. (hi - lo) / (max_search_value cfg - min_search_value cfg)
                             * (1 - \<bar>v - 2 * of_int \<lfloor>v / 2\<rfloor> - 1\<bar>)
                           + (lo - (hi - lo) / (max_search_value cfg - min_search_value cfg)
                                     * min_search_value cfg)) seg)"
proof -
  have "periodic_boundary_conditions_array seg 1
        = Inr (map (\<lambda>v. 1 - \<bar>v - 2 * of_int \<lfloor>v / 2\<rfloor> - 1\<bar>) seg)"
    unfolding periodic_boundary_conditions_array_def
    by (rule mapE_Inr) (rule periodic_boundary_conditions_one)
  then show ?thesis
    using assms by (simp add: rescaled_segment_def rescale_parameter_array_def Let_def o_def)
qed

lemma rescaled_segment_elementwise:
  assumes "rescaled_segment cfg seg lo hi = Inr pars"
  shows "length pars = length seg
         \<and> (\<forall>k<length seg.
               bindE (periodic_boundary_conditions (seg ! k) 1)
                 (\<lambda>w. rescale_parameter w lo hi (min_search_value cfg) (max_search_value cfg))
               = Inr (pars ! k))"
proof (cases "max_search_value cfg = min_search_value cfg")
  case True
  have "periodic_boundary_conditions_array seg 1
        = Inr (map (\<lambda>v. 1 - \<bar>v - 2 * of_int \<lfloor>v / 2\<rfloor> - 1\<bar>) seg)"
    unfolding periodic_boundary_conditions_array_def
    by (rule mapE_Inr) (rule periodic_boundary_conditions_one)
  with True assms show ?thesis
    by (simp add: rescaled_segment_def rescale_parameter_array_def)
next
  case False
  from rescaled_segment_map [OF False, of seg lo hi] assms False show ?thesis
    by (auto simp: periodic_boundary_conditions_one rescale_parameter_def Let_def)
qed

lemma assign_from_Inr:
  assumes "k < length pars" "r < shape0 m" "c < shape1 m"
  shows "assign_from pars k (r, c) m
         = Inr (m\<lparr>entries := (entries m)(r := (entries m r)(c := pars ! k))\<rparr>)"
  using assms by (simp add: assign_from_def getitem1_def setitem_def)

lemma row_fill:
  assumes "i < shape0 m" "off + w \<le> shape1 m" "base + w \<le> length pars"
  shows "forE [0..<w] (\<lambda>j. assign_from pars (base + j) (i, off + j)) m
         = Inr (m\<lparr>entries := \<lambda>r c. if r = i \<and> off \<le> c \<and> c < off + w
                                     then pars ! (base + (c - off)) else entries m r c\<rparr>)"
proof -
  let ?F = "\<lambda>k. m\<lparr>entries := \<lambda>r c. if r = i \<and> off \<le> c \<and> c < off + k
                                     then pars ! (base + (c - off)) else entries m r c\<rparr>"
  have "forE [0..<w] (\<lambda>j. assign_from pars (base + j) (i, off + j)) (?F 0) = Inr (?F w)"
  proof (rule forE_upt_eq)
    fix k assume k: "0 \<le> k" "k < w"
    have "assign_from pars (base + k) (i, off + k) (?F k)
          = Inr ((?F k)\<lparr>entries := (entries (?F k))(i := (entries (?F k) i)(off + k := pars ! (base + k)))\<rparr>)"
      by (rule assign_from_Inr) (use assms k in simp_all)
    also have "(?F k)\<lparr>entries := (entries (?F k))(i := (entries (?F k) i)(off + k := pars ! (base + k)))\<rparr> = ?F (Suc k)"
      by (auto simp: fun_eq_iff)
    finally show "assign_from pars (base + k) (i, off + k) (?F k) = Inr (?F (Suc k))" .
  qed simp
  moreover have "(\<lambda>r c. if r = i \<and> off \<le> c \<and> c < off + 0
                        then pars ! (base + (c - off)) else entries m r c) = entries m"
    by (auto simp: fun_eq_iff)
  then have "?F 0 = m" by simp
  ultimately show ?thesis by simp
qed

lemma block_fill:
  assumes "h \<le> shape0 m" "off + w \<le> shape1 m" "base + w * h \<le> length pars"
  shows "forE [0..<h] (\<lambda>i. forE [0..<w] (\<lambda>j. assign_from pars (base + w * i + j) (i, off + j))) m
         = Inr (m\<lparr>entries := \<lambda>r c. if r < h \<and> off \<le> c \<and> c < off + w
                                     then pars ! (base + w * r + (c - off)) else entries m r c\<rparr>)"
proof -
  let ?F = "\<lambda>k. m\<lparr>entries := \<lambda>r c. if r < k \<and> off \<le> c \<and> c < off + w
                                     then pars ! (base + w * r + (c - off)) else entries m r c\<rparr>"
  have "forE [0..<h] (\<lambda>i. forE [0..<w] (\<lambda>j. assign_from pars (base + w * i + j) (i, off + j))) (?F 0)
        = Inr (?F h)"
  proof (rule forE_upt_eq)
    fix k assume k: "0 \<le> k" "k < h"
    then have "w * Suc k \<le> w * h"
      by (intro mult_le_mono2) simp
    then have "w * k + w \<le> w * h" by simp
    with assms have len: "base + w * k + w \<le> length pars" by simp
    have "forE [0..<w] (\<lambda>j. assign_from pars (base + w * k + j) (k, off + j)) (?F k)
          = Inr ((?F k)\<lparr>entries := \<lambda>r c. if r = k \<and> off \<le> c \<and> c < off + w
                                     then pars ! (base + w * k + (c - off)) else entries (?F k) r c\<rparr>)"
      by (rule row_fill) (use assms k len in simp_all)
    also have "(?F k)\<lparr>entries := \<lambda>r c. if r = k \<and> off \<le> c \<and> c < off + w
                                     then pars ! (base + w * k + (c - off)) else entries (?F k) r c\<rparr>
               = ?F (Suc k)"
      by (auto simp: fun_eq_iff less_Suc_eq)
    finally show "forE [0..<w] (\<lambda>j. assign_from pars (base + w * k + j) (k, off + j)) (?F k)
                  = Inr (?F (Suc k))" .
  qed simp
  moreover have "?F 0 = m" by simp
  ultimately show ?thesis by simp
qed


lemma block_fill_origin:
  assumes "h \<le> shape0 m" "w \<le> shape1 m" "w * h \<le> length pars"
  shows "forE [0..<h] (\<lambda>i. forE [0..<w] (\<lambda>j. assign_from pars (w * i + j) (i, j))) m
         = Inr (m\<lparr>entries := \<lambda>r c. if r < h \<and> c < w
                                     then pars ! (w * r + c) else entries m r c\<rparr>)"
  using block_fill [of h m 0 w 0 pars] assms by (simp cong: if_cong)

lemma asymmetric_decode:
  assumes asym: "\<not> bilateral_symmetry cfg"
    and len: "length x = num_parameters cfg"
    and sws: "shape0 (sensor_weights ns) = num_rays cfg"
             "shape1 (sensor_weights ns) = num_interneurons cfg"
    and cws: "shape0 (circuit_weights ns) = circuit_size cfg"
             "shape1 (circuit_weights ns) = circuit_size cfg"
    and sp: "rescaled_segment cfg (take (num_sensor_weights cfg) x)
               (min_weight cfg) (max_weight cfg) = Inr sensor_pars"
    and cp: "rescaled_segment cfg
               (drop (num_sensor_weights cfg)
                  (take (num_sensor_weights cfg + num_circuit_weights cfg) x))
               (min_weight cfg) (max_weight cfg) = Inr circuit_pars"
    and bp: "rescaled_segment cfg
               (drop (num_sensor_weights cfg + num_circuit_weights cfg)
                  (take (num_sensor_weights cfg + num_circuit_weights cfg + circuit_size cfg) x))
               (min_bias cfg) (max_bias cfg) = Inr bias_pars"
    and tp: "rescaled_segment cfg
               (drop (num_sensor_weights cfg + num_circuit_weights cfg + circuit_size cfg) x)
               (min_tau cfg) (max_tau cfg) = Inr tau_pars"
  shows "map_search_parameters cfg x ns
         = Inr (ns\<lparr>sensor_weights := (sensor_weights ns)\<lparr>entries := \<lambda>r c.
                       if r < num_rays cfg \<and> c < num_interneurons cfg
                       then sensor_pars ! (num_interneurons cfg * r + c)
                       else entries (sensor_weights ns) r c\<rparr>,
                   circuit_weights := (circuit_weights ns)\<lparr>entries := \<lambda>r c.
                       if r < num_interneurons cfg \<and> num_interneurons cfg \<le> c
                          \<and> c < num_interneurons cfg + 2
                       then circuit_pars ! (num_interneurons cfg * num_interneurons cfg
                                              + 2 * r + (c - num_interneurons cfg))
                       else if r < num_interneurons cfg \<and> c < num_interneurons cfg
                       then circuit_pars ! (num_interneurons cfg * r + c)
                       else entries (circuit_weights ns) r c\<rparr>,
                   biases := bias_pars, time_constants := tau_pars\<rparr>)"
proof -
  let ?I = "num_interneurons cfg" and ?R = "num_rays cfg"
  have nsw: "num_sensor_weights cfg = ?I * ?R" and ncw: "num_circuit_weights cfg = ?I * (?I + 2)"
    and np: "num_parameters cfg = ?I * ?R + ?I * (?I + 2) + ?I + 2 + ?I + 2"
    using asym by (simp_all add: num_sensor_weights_def num_circuit_weights_def num_parameters_def)
  have lsp: "length sensor_pars = ?I * ?R"
    using rescaled_segment_elementwise [OF sp] len nsw np by simp
  have lcp: "length circuit_pars = ?I * (?I + 2)"
    using rescaled_segment_elementwise [OF cp] len nsw ncw np by simp
  have s1: "forE [0..<?R] (\<lambda>i. forE [0..<?I] (\<lambda>j.
                 assign_from sensor_pars (?I * i + j) (i, j))) (sensor_weights ns)
            = Inr ((sensor_weights ns)\<lparr>entries := \<lambda>r c.
                       if r < ?R \<and> c < ?I then sensor_pars ! (?I * r + c)
                       else entries (sensor_weights ns) r c\<rparr>)"
    by (rule block_fill_origin) (use sws lsp in simp_all)
  let ?cw1 = "(circuit_weights ns)\<lparr>entries := \<lambda>r c.
                       if r < ?I \<and> c < ?I then circuit_pars ! (?I * r + c)
                       else entries (circuit_weights ns) r c\<rparr>"
  have c1: "forE [0..<?I] (\<lambda>i. forE [0..<?I] (\<lambda>j.
                 assign_from circuit_pars (?I * i + j) (i, j))) (circuit_weights ns)
            = Inr ?cw1"
    by (rule block_fill_origin) (use cws lcp in \<open>simp_all add: circuit_size_def\<close>)
  have c2: "forE [0..<?I] (\<lambda>i. forE [0..<2] (\<lambda>j.
                 assign_from circuit_pars (?I * ?I + 2 * i + j) (i, ?I + j))) ?cw1
            = Inr (?cw1\<lparr>entries := \<lambda>r c.
                       if r < ?I \<and> ?I \<le> c \<and> c < ?I + 2
                       then circuit_pars ! (?I * ?I + 2 * r + (c - ?I))
                       else entries ?cw1 r c\<rparr>)"
    by (rule block_fill) (use cws lcp in \<open>simp_all add: circuit_size_def algebra_simps\<close>)
  show ?thesis
    unfolding map_search_parameters_def Let_def
    using asym
    by (simp add: sp cp bp tp s1 c1 c2 set_biases_def set_time_constants_def cong: if_cong)
qed

lemma row_major_index:
  fixes i j h w :: nat
  assumes "i < h" "j < w"
  shows "w * i + j < w * h"
proof -
  from assms(1) have "w * Suc i \<le> w * h" by (intro mult_le_mono2) simp
  with assms(2) show ?thesis by simp
qed

lemma demo_config_counts:
  "num_sensor_weights demo_config = 2" "num_circuit_weights demo_config = 8"
  "circuit_size demo_config = 4" "num_parameters demo_config = 18"
  "num_rays demo_config = 1" "num_interneurons demo_config = 2"
  "\<not> bilateral_symmetry demo_config"
  "max_search_value demo_config \<noteq> min_search_value demo_config"
  by (simp_all add: num_sensor_weights_def num_circuit_weights_def circuit_size_def
        num_parameters_def demo_config_def parameter_defaults_def)

lemma demo_segments:
  "rescaled_segment demo_config (take 2 demo_genome)
     (min_weight demo_config) (max_weight demo_config) = Inr [-16, 16]"
  "rescaled_segment demo_config (drop 2 (take (2 + 8) demo_genome))
     (min_weight demo_config) (max_weight demo_config)
   = Inr [-16, -16, -16, -16, 16, -16, -16, 0]"
  "rescaled_segment demo_config (drop (2 + 8) (take (2 + 8 + 4) demo_genome))
     (min_bias demo_config) (max_bias demo_config) = Inr [-16, -16, -16, 0]"
  "rescaled_segment demo_config (drop (2 + 8 + 4) demo_genome)
     (min_tau demo_config) (max_tau demo_config) = Inr [30, 30, 30, 30]"
  by (simp_all add: rescaled_segment_def periodic_boundary_conditions_array_def
        periodic_boundary_conditions_def py_mod_def rescale_parameter_array_def
        demo_config_def demo_genome_def parameter_defaults_def)

text \<open>
  Claim C4 (amended). In asymmetric mode, on a genome of \<open>num_parameters\<close> entries,
  the decoder succeeds and reading back recovers the wrapped and rescaled segments:
  sensor weights row-major over ray by interneuron; for the internal weights the
  interneuron-to-interneuron block first, row-major over interneuron by interneuron,
  and then the two motor columns, row-major over interneuron by 2, from the entries that
  follow the block; the biases and the time constants in index order.
\<close>

theorem asymmetric_round_trip:
  assumes asym: "\<not> bilateral_symmetry cfg"
    and len: "length x = num_parameters cfg"
    and sws: "shape0 (sensor_weights ns) = num_rays cfg"
             "shape1 (sensor_weights ns) = num_interneurons cfg"
    and cws: "shape0 (circuit_weights ns) = circuit_size cfg"
             "shape1 (circuit_weights ns) = circuit_size cfg"
    and srch: "max_search_value cfg \<noteq> min_search_value cfg"
  shows "(\<exists>ns'. map_search_parameters cfg x ns = Inr ns')
    \<and> (\<forall>i<num_rays cfg. \<forall>j<num_interneurons cfg.
          read_sensor_weight (map_search_parameters cfg x ns) i j
          = segment_entry (rescaled_segment cfg (take (num_sensor_weights cfg) x)
                             (min_weight cfg) (max_weight cfg))
              (num_interneurons cfg * i + j))
    \<and> (\<forall>i<num_interneurons cfg. \<forall>j<num_interneurons cfg.
          read_circuit_weight (map_search_parameters cfg x ns) i j
          = segment_entry (rescaled_segment cfg
                             (drop (num_sensor_weights cfg)
                                (take (num_sensor_weights cfg + num_circuit_weights cfg) x))
                             (min_weight cfg) (max_weight cfg))
              (num_interneurons cfg * i + j))
    \<and> (\<forall>i<num_interneurons cfg. \<forall>j<2.
          read_circuit_weight (map_search_parameters cfg x ns) i (num_interneurons cfg + j)
          = segment_entry (rescaled_segment cfg
                             (drop (num_sensor_weights cfg)
                                (take (num_sensor_weights cfg + num_circuit_weights cfg) x))
                             (min_weight cfg) (max_weight cfg))
              (num_interneurons cfg * num_interneurons cfg + 2 * i + j))
    \<and> read_biases (map_search_parameters cfg x ns)
        = rescaled_segment cfg
            (drop (num_sensor_weights cfg + num_circuit_weights cfg)
               (take (num_sensor_weights cfg + num_circuit_weights cfg + circuit_size cfg) x))
            (min_bias cfg) (max_bias cfg)
    \<and> read_time_constants (map_search_parameters cfg x ns)
        = rescaled_segment cfg
            (drop (num_sensor_weights cfg + num_circuit_weights cfg + circuit_size cfg) x)
            (min_tau cfg) (max_tau cfg)"
proof -
  let ?I = "num_interneurons cfg" and ?R = "num_rays cfg"
  have nsw: "num_sensor_weights cfg = ?I * ?R" and ncw: "num_circuit_weights cfg = ?I * (?I + 2)"
    and np: "num_parameters cfg = ?I * ?R + ?I * (?I + 2) + ?I + 2 + ?I + 2"
    using asym by (simp_all add: num_sensor_weights_def num_circuit_weights_def num_parameters_def)
  obtain sensor_pars where sp: "rescaled_segment cfg (take (num_sensor_weights cfg) x)
               (min_weight cfg) (max_weight cfg) = Inr sensor_pars"
    using rescaled_segment_map [OF srch] by blast
  obtain circuit_pars where cp: "rescaled_segment cfg
               (drop (num_sensor_weights cfg)
                  (take (num_sensor_weights cfg + num_circuit_weights cfg) x))
               (min_weight cfg) (max_weight cfg) = Inr circuit_pars"
    using rescaled_segment_map [OF srch] by blast
  obtain bias_pars where bp: "rescaled_segment cfg
               (drop (num_sensor_weights cfg + num_circuit_weights cfg)
                  (take (num_sensor_weights cfg + num_circuit_weights cfg + circuit_size cfg) x))
               (min_bias cfg) (max_bias cfg) = Inr bias_pars"
    using rescaled_segment_map [OF srch] by blast
  obtain tau_pars where tp: "rescaled_segment cfg
               (drop (num_sensor_weights cfg + num_circuit_weights cfg + circuit_size cfg) x)
               (min_tau cfg) (max_tau cfg) = Inr tau_pars"
    using rescaled_segment_map [OF srch] by blast
  have lsp: "length sensor_pars = ?I * ?R"
    using rescaled_segment_elementwise [OF sp] len nsw np by simp
  have lcp: "length circuit_pars = ?I * (?I + 2)"
    using rescaled_segment_elementwise [OF cp] len nsw ncw np by simp
  note dec = asymmetric_decode [OF asym len sws cws sp cp bp tp]
  have sidx: "?I * i + j < ?I * ?R" if "i < ?R" "j < ?I" for i j
    using that by (rule row_major_index)
  have cidx: "?I * i + j < ?I * (?I + 2)" if "i < ?I" "j < ?I" for i j
    using row_major_index [OF that] by (simp add: algebra_simps)
  have midx: "?I * ?I + 2 * i + j < ?I * (?I + 2)" if "i < ?I" "j < 2" for i j
    using that by (simp add: algebra_simps)
  show ?thesis
    unfolding dec sp cp bp tp
    using sws cws sidx cidx midx lsp lcp
    by (simp add: read_sensor_weight_def read_circuit_weight_def read_biases_def
          read_time_constants_def segment_entry_def getitem_def getitem1_def circuit_size_def)
qed


theorem asymmetric_round_trip_witness:
  "\<not> bilateral_symmetry demo_config
   \<and> length demo_genome = num_parameters demo_config
   \<and> shape0 (sensor_weights demo_controller) = num_rays demo_config
   \<and> shape1 (sensor_weights demo_controller) = num_interneurons demo_config
   \<and> shape0 (circuit_weights demo_controller) = circuit_size demo_config
   \<and> shape1 (circuit_weights demo_controller) = circuit_size demo_config
   \<and> max_search_value demo_config \<noteq> min_search_value demo_config
   \<and> read_sensor_weight (map_search_parameters demo_config demo_genome demo_controller) 0 1
       = Inr 16
   \<and> read_circuit_weight (map_search_parameters demo_config demo_genome demo_controller) 1 0
       = Inr (-16)
   \<and> read_circuit_weight (map_search_parameters demo_config demo_genome demo_controller) 0 2
       = Inr 16
   \<and> read_circuit_weight (map_search_parameters demo_config demo_genome demo_controller) 1 3
       = Inr 0
   \<and> read_biases (map_search_parameters demo_config demo_genome demo_controller)
       = Inr [-16, -16, -16, 0]
   \<and> read_time_constants (map_search_parameters demo_config demo_genome demo_controller)
       = Inr [30, 30, 30, 30]"
proof -
  have h: "\<not> bilateral_symmetry demo_config"
    "length demo_genome = num_parameters demo_config"
    "shape0 (sensor_weights demo_controller) = num_rays demo_config"
    "shape1 (sensor_weights demo_controller) = num_interneurons demo_config"
    "shape0 (circuit_weights demo_controller) = circuit_size demo_config"
    "shape1 (circuit_weights demo_controller) = circuit_size demo_config"
    "max_search_value demo_config \<noteq> min_search_value demo_config"
    by (simp_all add: demo_config_counts demo_genome_def demo_controller_def zeros_def)
  note t = asymmetric_round_trip [OF h, unfolded demo_config_counts demo_segments]
  have e: "segment_entry (Inr xs) k = getitem1 xs k" for xs k
    by (simp add: segment_entry_def)
  from t have "read_sensor_weight (map_search_parameters demo_config demo_genome demo_controller) 0 1
       = Inr 16"
    by (simp add: e getitem1_def)
  moreover from t have "read_circuit_weight (map_search_parameters demo_config demo_genome demo_controller) 1 0
       = Inr (-16)"
    by (simp add: e getitem1_def)
  moreover from t have m: "\<forall>i<2. \<forall>j<2.
       read_circuit_weight (map_search_parameters demo_config demo_genome demo_controller) i (2 + j)
       = segment_entry (Inr [-16, -16, -16, -16, 16, -16, -16, 0]) (2 * 2 + 2 * i + j)"
    by blast
  from m [rule_format, of 0 0]
  have "read_circuit_weight (map_search_parameters demo_config demo_genome demo_controller) 0 2
       = Inr 16"
    by (simp add: e getitem1_def)
  moreover from m [rule_format, of 1 1]
  have "read_circuit_weight (map_search_parameters demo_config demo_genome demo_controller) 1 3
       = Inr 0"
    by (simp add: e getitem1_def)
  moreover from t have "read_biases (map_search_parameters demo_config demo_genome demo_controller)
       = Inr [-16, -16, -16, 0]"
    "read_time_constants (map_search_parameters demo_config demo_genome demo_controller)
       = Inr [30, 30, 30, 30]"
    by simp_all
  ultimately show ?thesis using h by simp
qed


text \<open>Claim C4 as stated fails: with two interneurons the weight from interneuron 0
  to the first motor unit is not entry \<open>circuit_size * 0 + 2\<close> of the segment, as a
  row-major layout over interneuron by circuit size would have it.\<close>

theorem asymmetric_row_major_counterexample:
  "read_circuit_weight (map_search_parameters demo_config demo_genome demo_controller) 0 2
   \<noteq> segment_entry
       (rescaled_segment demo_config
          (drop (num_sensor_weights demo_config)
             (take (num_sensor_weights demo_config + num_circuit_weights demo_config)
                demo_genome))
          (min_weight demo_config) (max_weight demo_config))
       (circuit_size demo_config * 0 + 2)"
proof -
  have h: "length demo_genome = num_parameters demo_config"
    "shape0 (sensor_weights demo_controller) = num_rays demo_config"
    "shape1 (sensor_weights demo_controller) = num_interneurons demo_config"
    "shape0 (circuit_weights demo_controller) = circuit_size demo_config"
    "shape1 (circuit_weights demo_controller) = circuit_size demo_config"
    by (simp_all add: demo_config_counts demo_genome_def demo_controller_def zeros_def)
  note dec = asymmetric_decode [OF demo_config_counts(7) h,
      unfolded demo_config_counts, OF demo_segments]
  have "read_circuit_weight (map_search_parameters demo_config demo_genome demo_controller) 0 2
        = Inr 16"
    unfolding dec
    by (simp add: read_circuit_weight_def getitem_def demo_controller_def zeros_def)
  moreover have "segment_entry
       (rescaled_segment demo_config
          (drop (num_sensor_weights demo_config)
             (take (num_sensor_weights demo_config + num_circuit_weights demo_config)
                demo_genome))
          (min_weight demo_config) (max_weight demo_config))
       (circuit_size demo_config * 0 + 2) = Inr (-16)"
    unfolding demo_config_counts demo_segments
    by (simp add: segment_entry_def getitem1_def)
  ultimately show ?thesis by simp
qed

subsection \<open>Properties of the decoder, symmetric mode\<close>

lemma assign_pair_Inr:
  assumes "ic < length pars" "r1 < shape0 m" "c1 < shape1 m" "r2 < shape0 m" "c2 < shape1 m"
  shows "assign_pair pars (r1, c1) (r2, c2) (m, ic)
         = Inr (m\<lparr>entries := \<lambda>r c. if (r = r1 \<and> c = c1) \<or> (r = r2 \<and> c = c2)
                                     then pars ! ic else entries m r c\<rparr>, ic + 1)"
proof -
  let ?m1 = "m\<lparr>entries := (entries m)(r1 := (entries m r1)(c1 := pars ! ic))\<rparr>"
  have a1: "assign_from pars ic (r1, c1) m = Inr ?m1"
    by (rule assign_from_Inr) (use assms in simp_all)
  have a2: "assign_from pars ic (r2, c2) ?m1
            = Inr (?m1\<lparr>entries := (entries ?m1)(r2 := (entries ?m1 r2)(c2 := pars ! ic))\<rparr>)"
    by (rule assign_from_Inr) (use assms in simp_all)
  have "(entries ?m1)(r2 := (entries ?m1 r2)(c2 := pars ! ic))
        = (\<lambda>r c. if (r = r1 \<and> c = c1) \<or> (r = r2 \<and> c = c2)
                  then pars ! ic else entries m r c)"
    by (intro ext) auto
  then have eq: "?m1\<lparr>entries := (entries ?m1)(r2 := (entries ?m1 r2)(c2 := pars ! ic))\<rparr>
            = m\<lparr>entries := \<lambda>r c. if (r = r1 \<and> c = c1) \<or> (r = r2 \<and> c = c2)
                                     then pars ! ic else entries m r c\<rparr>"
    by (simp del: fun_upd_apply)
  show ?thesis
    unfolding assign_pair_def by (simp only: a1 a2 eq bindE_Inr prod.case)
qed

lemma mirror_row_fill:
  assumes rows: "i < shape0 m" "i' < shape0 m" "i \<noteq> i'"
    and cols: "off + w \<le> shape1 m" and len: "ic + w \<le> length pars"
  shows "forE [0..<w] (\<lambda>j. assign_pair pars (i, off + j) (i', off + (w - j - 1))) (m, ic)
         = Inr (m\<lparr>entries := \<lambda>r c.
                    if r = i \<and> off \<le> c \<and> c < off + w then pars ! (ic + (c - off))
                    else if r = i' \<and> off \<le> c \<and> c < off + w
                         then pars ! (ic + (w - 1 - (c - off)))
                    else entries m r c\<rparr>, ic + w)"
proof -
  let ?G = "\<lambda>k r c.
              if r = i \<and> off \<le> c \<and> c < off + k then pars ! (ic + (c - off))
              else if r = i' \<and> off + (w - k) \<le> c \<and> c < off + w
                   then pars ! (ic + (w - 1 - (c - off)))
              else entries m r c"
  let ?F = "\<lambda>k. (m\<lparr>entries := ?G k\<rparr>, ic + k)"
  have "forE [0..<w] (\<lambda>j. assign_pair pars (i, off + j) (i', off + (w - j - 1))) (?F 0)
        = Inr (?F w)"
  proof (rule forE_upt_eq)
    fix k assume k: "0 \<le> k" "k < w"
    have "assign_pair pars (i, off + k) (i', off + (w - k - 1)) (m\<lparr>entries := ?G k\<rparr>, ic + k)
          = Inr ((m\<lparr>entries := ?G k\<rparr>)\<lparr>entries := \<lambda>r c.
                    if (r = i \<and> c = off + k) \<or> (r = i' \<and> c = off + (w - k - 1))
                    then pars ! (ic + k) else entries (m\<lparr>entries := ?G k\<rparr>) r c\<rparr>, ic + k + 1)"
      by (rule assign_pair_Inr) (use assms k in simp_all)
    also have "(\<lambda>r c. if (r = i \<and> c = off + k) \<or> (r = i' \<and> c = off + (w - k - 1))
                    then pars ! (ic + k) else entries (m\<lparr>entries := ?G k\<rparr>) r c) = ?G (Suc k)"
    proof (intro ext)
      fix r c
      show "(if (r = i \<and> c = off + k) \<or> (r = i' \<and> c = off + (w - k - 1))
                    then pars ! (ic + k) else entries (m\<lparr>entries := ?G k\<rparr>) r c) = ?G (Suc k) r c"
      proof (cases "r = i")
        case True
        with rows(3) show ?thesis by (auto simp: less_Suc_eq)
      next
        case ri: False
        show ?thesis
        proof (cases "r = i'")
          case False
          with ri show ?thesis by simp
        next
          case True
          consider "c = off + (w - k - 1)" | "c < off + (w - k - 1)" | "off + (w - k - 1) < c"
            by linarith
          then show ?thesis
          proof cases
            case 1
            with True ri k have "w - 1 - (c - off) = k" by simp
            with 1 True ri k show ?thesis by simp
          next
            case 2
            with True ri k show ?thesis by auto
          next
            case 3
            with True ri k show ?thesis by auto
          qed
        qed
      qed
    qed
    finally show "assign_pair pars (i, off + k) (i', off + (w - k - 1)) (?F k) = Inr (?F (Suc k))"
      by simp
  qed simp
  moreover have "?G 0 = entries m" by (auto simp: fun_eq_iff)
  then have "?F 0 = (m, ic)" by simp
  moreover have "?G w = (\<lambda>r c.
                    if r = i \<and> off \<le> c \<and> c < off + w then pars ! (ic + (c - off))
                    else if r = i' \<and> off \<le> c \<and> c < off + w
                         then pars ! (ic + (w - 1 - (c - off)))
                    else entries m r c)" by (intro ext) simp
  ultimately show ?thesis by simp
qed


lemma center_row_fill:
  assumes row: "c0 < shape0 m" and cols: "off + w \<le> shape1 m"
    and len: "ic + (w + 1) div 2 \<le> length pars"
  shows "forE [0..<(w + 1) div 2]
           (\<lambda>j. assign_pair pars (c0, off + j) (c0, off + (w - j - 1))) (m, ic)
         = Inr (m\<lparr>entries := \<lambda>r c.
                    if r = c0 \<and> off \<le> c \<and> c < off + (w + 1) div 2
                    then pars ! (ic + (c - off))
                    else if r = c0 \<and> off + (w - (w + 1) div 2) \<le> c \<and> c < off + w
                         then pars ! (ic + (w - 1 - (c - off)))
                    else entries m r c\<rparr>, ic + (w + 1) div 2)"
proof -
  let ?G = "\<lambda>k r c.
              if r = c0 \<and> off \<le> c \<and> c < off + k then pars ! (ic + (c - off))
              else if r = c0 \<and> off + (w - k) \<le> c \<and> c < off + w
                   then pars ! (ic + (w - 1 - (c - off)))
              else entries m r c"
  let ?F = "\<lambda>k. (m\<lparr>entries := ?G k\<rparr>, ic + k)"
  have "forE [0..<(w + 1) div 2]
           (\<lambda>j. assign_pair pars (c0, off + j) (c0, off + (w - j - 1))) (?F 0)
        = Inr (?F ((w + 1) div 2))"
  proof (rule forE_upt_eq)
    fix k assume k: "0 \<le> k" "k < (w + 1) div 2"
    then have kw: "2 * k < w" "k < w" by linarith+
    have "assign_pair pars (c0, off + k) (c0, off + (w - k - 1)) (m\<lparr>entries := ?G k\<rparr>, ic + k)
          = Inr ((m\<lparr>entries := ?G k\<rparr>)\<lparr>entries := \<lambda>r c.
                    if (r = c0 \<and> c = off + k) \<or> (r = c0 \<and> c = off + (w - k - 1))
                    then pars ! (ic + k) else entries (m\<lparr>entries := ?G k\<rparr>) r c\<rparr>, ic + k + 1)"
      by (rule assign_pair_Inr) (use assms k kw in simp_all)
    also have "(\<lambda>r c. if (r = c0 \<and> c = off + k) \<or> (r = c0 \<and> c = off + (w - k - 1))
                    then pars ! (ic + k) else entries (m\<lparr>entries := ?G k\<rparr>) r c) = ?G (Suc k)"
    proof (intro ext)
      fix r c
      show "(if (r = c0 \<and> c = off + k) \<or> (r = c0 \<and> c = off + (w - k - 1))
                    then pars ! (ic + k) else entries (m\<lparr>entries := ?G k\<rparr>) r c) = ?G (Suc k) r c"
      proof (cases "r = c0")
        case False
        then show ?thesis by simp
      next
        case True
        consider "c = off + k" | "c = off + (w - k - 1)" "c \<noteq> off + k"
          | "c \<noteq> off + k" "c \<noteq> off + (w - k - 1)"
          by blast
        then show ?thesis
        proof cases
          case 1
          with True show ?thesis by simp
        next
          case 2
          with kw have "w - 1 - (c - off) = k" "\<not> c < off + Suc k" "off + (w - Suc k) \<le> c"
            "c < off + w" by simp_all
          with 2 True show ?thesis by simp
        next
          case 3
          with True kw show ?thesis by auto
        qed
      qed
    qed
    finally show "assign_pair pars (c0, off + k) (c0, off + (w - k - 1)) (?F k) = Inr (?F (Suc k))"
      by simp
  qed simp
  moreover have "?G 0 = entries m" by (auto simp: fun_eq_iff)
  then have "?F 0 = (m, ic)" by simp
  ultimately show ?thesis by simp
qed

lemma mirror_block_fill:
  assumes rows: "2 * h \<le> H" "H \<le> shape0 m" and cols: "off + w \<le> shape1 m"
    and len: "ic + w * h \<le> length pars"
  shows "forE [0..<h] (\<lambda>i. forE [0..<w] (\<lambda>j.
           assign_pair pars (i, off + j) (H - i - 1, off + (w - j - 1)))) (m, ic)
         = Inr (m\<lparr>entries := \<lambda>r c.
                    if r < h \<and> off \<le> c \<and> c < off + w
                    then pars ! (ic + w * r + (c - off))
                    else if H - h \<le> r \<and> r < H \<and> off \<le> c \<and> c < off + w
                         then pars ! (ic + w * (H - 1 - r) + (w - 1 - (c - off)))
                    else entries m r c\<rparr>, ic + w * h)"
proof -
  let ?G = "\<lambda>k r c.
              if r < k \<and> off \<le> c \<and> c < off + w
              then pars ! (ic + w * r + (c - off))
              else if H - k \<le> r \<and> r < H \<and> off \<le> c \<and> c < off + w
                   then pars ! (ic + w * (H - 1 - r) + (w - 1 - (c - off)))
              else entries m r c"
  let ?F = "\<lambda>k. (m\<lparr>entries := ?G k\<rparr>, ic + w * k)"
  have "forE [0..<h] (\<lambda>i. forE [0..<w] (\<lambda>j.
           assign_pair pars (i, off + j) (H - i - 1, off + (w - j - 1)))) (?F 0)
        = Inr (?F h)"
  proof (rule forE_upt_eq)
    fix k assume k: "0 \<le> k" "k < h"
    with rows have kH: "k < H - k - 1" "H - k - 1 < H" "H - 1 - (H - k - 1) = k" by linarith+
    from k have "w * Suc k \<le> w * h" by (intro mult_le_mono2) simp
    with len have len': "ic + w * k + w \<le> length pars" by simp
    have "forE [0..<w] (\<lambda>j. assign_pair pars (k, off + j) (H - k - 1, off + (w - j - 1)))
            (m\<lparr>entries := ?G k\<rparr>, ic + w * k)
          = Inr ((m\<lparr>entries := ?G k\<rparr>)\<lparr>entries := \<lambda>r c.
                    if r = k \<and> off \<le> c \<and> c < off + w then pars ! (ic + w * k + (c - off))
                    else if r = H - k - 1 \<and> off \<le> c \<and> c < off + w
                         then pars ! (ic + w * k + (w - 1 - (c - off)))
                    else entries (m\<lparr>entries := ?G k\<rparr>) r c\<rparr>, ic + w * k + w)"
      by (rule mirror_row_fill) (use rows cols kH len' in simp_all)
    also have "(\<lambda>r c.
                    if r = k \<and> off \<le> c \<and> c < off + w then pars ! (ic + w * k + (c - off))
                    else if r = H - k - 1 \<and> off \<le> c \<and> c < off + w
                         then pars ! (ic + w * k + (w - 1 - (c - off)))
                    else entries (m\<lparr>entries := ?G k\<rparr>) r c) = ?G (Suc k)"
    proof (intro ext)
      fix r c
      consider "r < k" | "r = k" | "r = H - k - 1" | "k < r" "r < H - k - 1" | "H - k - 1 < r"
        by linarith
      then show "(if r = k \<and> off \<le> c \<and> c < off + w then pars ! (ic + w * k + (c - off))
                    else if r = H - k - 1 \<and> off \<le> c \<and> c < off + w
                         then pars ! (ic + w * k + (w - 1 - (c - off)))
                    else entries (m\<lparr>entries := ?G k\<rparr>) r c) = ?G (Suc k) r c"
      proof cases
        case 1
        with kH show ?thesis by auto
      next
        case 2
        with kH show ?thesis by auto
      next
        case 3
        with kH have a: "r \<noteq> k" "\<not> r < Suc k" "H - Suc k \<le> r" "r < H" "H - 1 - r = k"
          "\<not> r < k" "\<not> H - k \<le> r" by simp_all
        with 3 show ?thesis by simp
      next
        case 4
        with kH have "r \<noteq> k" "r \<noteq> H - k - 1" "\<not> r < Suc k" "\<not> H - Suc k \<le> r"
          "\<not> r < k" "\<not> H - k \<le> r" by simp_all
        then show ?thesis by simp
      next
        case 5
        with kH have "r \<noteq> k" "r \<noteq> H - k - 1" "\<not> r < Suc k" "H - Suc k \<le> r"
          "\<not> r < k" "H - k \<le> r" by simp_all
        then show ?thesis by simp
      qed
    qed
    finally show "forE [0..<w] (\<lambda>j. assign_pair pars (k, off + j) (H - k - 1, off + (w - j - 1)))
                    (?F k) = Inr (?F (Suc k))"
      by simp
  qed simp
  moreover have "?G 0 = entries m" by (auto simp: fun_eq_iff)
  then have "?F 0 = (m, ic)" by simp
  ultimately show ?thesis by simp
qed

lemma mirrored_fill:
  assumes rows: "H \<le> shape0 m" and cols: "off + w \<le> shape1 m"
    and len: "ic + w * (H div 2) + (if H mod 2 = 1 then (w + 1) div 2 else 0) \<le> length pars"
  shows "\<exists>m'. bindE (forE [0..<H div 2] (\<lambda>i. forE [0..<w] (\<lambda>j.
                  assign_pair pars (i, off + j) (H - i - 1, off + (w - j - 1)))) (m, ic))
               (\<lambda>st. if H mod 2 = 1
                      then forE [0..<(w + 1) div 2] (\<lambda>j.
                             assign_pair pars (H div 2, off + j)
                               (H div 2, off + (w - j - 1))) st
                      else Inr st)
              = Inr (m', ic + w * (H div 2) + (if H mod 2 = 1 then (w + 1) div 2 else 0))
           \<and> shape0 m' = shape0 m \<and> shape1 m' = shape1 m
           \<and> (\<forall>r c. r < H \<and> off \<le> c \<and> c < off + w
                  \<longrightarrow> entries m' r c = entries m' (H - 1 - r) (off + (w - 1 - (c - off))))
           \<and> (\<forall>r c. \<not> (r < H \<and> off \<le> c \<and> c < off + w)
                  \<longrightarrow> entries m' r c = entries m r c)"
proof -
  define h where "h = H div 2"
  define E1 where "E1 = (\<lambda>r c.
                    if r < h \<and> off \<le> c \<and> c < off + w
                    then pars ! (ic + w * r + (c - off))
                    else if H - h \<le> r \<and> r < H \<and> off \<le> c \<and> c < off + w
                         then pars ! (ic + w * (H - 1 - r) + (w - 1 - (c - off)))
                    else entries m r c)"
  have h2: "2 * h \<le> H" by (simp add: h_def)
  have len1: "ic + w * h \<le> length pars" using len by (simp add: h_def)
  have block: "forE [0..<h] (\<lambda>i. forE [0..<w] (\<lambda>j.
                  assign_pair pars (i, off + j) (H - i - 1, off + (w - j - 1)))) (m, ic)
               = Inr (m\<lparr>entries := E1\<rparr>, ic + w * h)"
    unfolding E1_def by (rule mirror_block_fill [OF h2 rows cols len1])
  have E1_frame: "E1 r c = entries m r c" if "\<not> (r < H \<and> off \<le> c \<and> c < off + w)" for r c
    using that h2 by (auto simp: E1_def)
  have E1_mirror: "E1 r c = E1 (H - 1 - r) (off + (w - 1 - (c - off)))"
    if rc: "r < H" "off \<le> c" "c < off + w" and nc: "r < h \<or> H - h \<le> r" for r c
  proof -
    let ?rm = "H - 1 - r" and ?cm = "off + (w - 1 - (c - off))"
    from rc have cm: "off \<le> ?cm" "?cm < off + w" "?cm - off = w - 1 - (c - off)"
      "w - 1 - (?cm - off) = c - off" by simp_all
    from nc show ?thesis
    proof
      assume lt: "r < h"
      with h2 rc have rm: "\<not> ?rm < h" "H - h \<le> ?rm" "?rm < H" "H - 1 - ?rm = r" by simp_all
      have "E1 r c = pars ! (ic + w * r + (c - off))" using lt rc by (simp add: E1_def)
      moreover have "E1 ?rm ?cm = pars ! (ic + w * (H - 1 - ?rm) + (w - 1 - (?cm - off)))"
        using rm cm(1,2) by (simp only: E1_def if_False if_True simp_thms)
      ultimately show ?thesis by (simp only: rm(4) cm(4))
    next
      assume ge: "H - h \<le> r"
      with h2 rc have r: "\<not> r < h" and rm: "?rm < h" by simp_all
      have "E1 r c = pars ! (ic + w * (H - 1 - r) + (w - 1 - (c - off)))"
        using r ge rc by (simp add: E1_def)
      moreover have "E1 ?rm ?cm = pars ! (ic + w * ?rm + (?cm - off))"
        using rm cm(1,2) by (simp only: E1_def if_True simp_thms)
      ultimately show ?thesis by (simp only: cm(3))
    qed
  qed
  show ?thesis
  proof (cases "H mod 2 = 1")
    case False
    then have even: "H = 2 * h" by (simp add: h_def) presburger
    have "E1 r c = E1 (H - 1 - r) (off + (w - 1 - (c - off)))"
      if "r < H" "off \<le> c" "c < off + w" for r c
      using that even by (intro E1_mirror) auto
    with False block E1_frame show ?thesis
      unfolding h_def [symmetric]
      by (intro exI [of _ "m\<lparr>entries := E1\<rparr>"]) simp
  next
    case True
    then have odd: "H = 2 * h + 1" by (simp add: h_def) presburger
    define hw where "hw = (w + 1) div 2"
    define ic1 where "ic1 = ic + w * h"
    define E2 where "E2 = (\<lambda>r c.
                    if r = h \<and> off \<le> c \<and> c < off + hw
                    then pars ! (ic1 + (c - off))
                    else if r = h \<and> off + (w - hw) \<le> c \<and> c < off + w
                         then pars ! (ic1 + (w - 1 - (c - off)))
                    else E1 r c)"
    have len2: "ic1 + (w + 1) div 2 \<le> length pars"
      using len True by (simp add: h_def ic1_def)
    have hrow: "h < shape0 (m\<lparr>entries := E1\<rparr>)" using odd rows by simp
    have center: "forE [0..<(w + 1) div 2] (\<lambda>j.
                    assign_pair pars (h, off + j) (h, off + (w - j - 1)))
                    (m\<lparr>entries := E1\<rparr>, ic1)
                  = Inr (m\<lparr>entries := E2\<rparr>, ic1 + (w + 1) div 2)"
      using center_row_fill [OF hrow _ len2, of off] cols
      by (simp add: E2_def hw_def cong: if_cong)
    have hw: "hw \<le> w" "w - hw \<le> hw" "w \<le> 2 * hw" "2 * hw \<le> w + 1"
      unfolding hw_def by linarith+
    have E2_frame: "E2 r c = entries m r c" if "\<not> (r < H \<and> off \<le> c \<and> c < off + w)" for r c
    proof -
      from that odd hw have "\<not> (r = h \<and> off \<le> c \<and> c < off + hw)"
        "\<not> (r = h \<and> off + (w - hw) \<le> c \<and> c < off + w)" by auto
      then have "E2 r c = E1 r c" by (simp only: E2_def if_False)
      with E1_frame [OF that] show ?thesis by simp
    qed
    have E2_mirror: "E2 r c = E2 (H - 1 - r) (off + (w - 1 - (c - off)))"
      if rc: "r < H" "off \<le> c" "c < off + w" for r c
    proof (cases "r = h")
      case False
      with odd rc have rm: "H - 1 - r \<noteq> h" and nc: "r < h \<or> H - h \<le> r" by auto
      from False have "E2 r c = E1 r c" by (simp add: E2_def)
      moreover from rm have "E2 (H - 1 - r) (off + (w - 1 - (c - off)))
                             = E1 (H - 1 - r) (off + (w - 1 - (c - off)))"
        by (simp add: E2_def)
      ultimately show ?thesis using E1_mirror [OF rc nc] by simp
    next
      case rh: True
      with odd have rm: "H - 1 - r = h" "H - 1 - h = h" by simp_all
      define c' where "c' = c - off"
      have c: "c = off + c'" "c' < w" using rc by (simp_all add: c'_def)
      have cm: "off + (w - 1 - (c - off)) = off + (w - 1 - c')" by (simp add: c'_def)
      show ?thesis
      proof (cases "c' < hw")
        case lt: True
        have l: "E2 r c = pars ! (ic1 + c')" using rh lt c by (simp add: E2_def)
        show ?thesis
        proof (cases "w - 1 - c' < hw")
          case True
          with lt c hw have "w - 1 - c' = c'" by linarith
          then have "off + (w - 1 - c') = c" using c by simp
          with l rh show ?thesis by (simp only: cm rm)
        next
          case False
          with c hw have "off + (w - hw) \<le> off + (w - 1 - c')" "off + (w - 1 - c') < off + w"
            "\<not> off + (w - 1 - c') < off + hw" "w - 1 - (w - 1 - c') = c'" by simp_all
          then have "E2 h (off + (w - 1 - c')) = pars ! (ic1 + c')"
            by (simp add: E2_def)
          with l show ?thesis by (simp only: cm rm)
        qed
      next
        case ge: False
        with c hw have a: "\<not> c < off + hw" "off + (w - hw) \<le> c" by simp_all
        have l: "E2 r c = pars ! (ic1 + (w - 1 - c'))"
          using rh a rc by (simp add: E2_def c'_def)
        from ge c hw have "w - 1 - c' < hw" by linarith
        then have "E2 h (off + (w - 1 - c')) = pars ! (ic1 + (w - 1 - c'))"
          by (simp add: E2_def)
        with l show ?thesis by (simp only: cm rm)
      qed
    qed
    have "bindE (forE [0..<H div 2] (\<lambda>i. forE [0..<w] (\<lambda>j.
                  assign_pair pars (i, off + j) (H - i - 1, off + (w - j - 1)))) (m, ic))
               (\<lambda>st. if H mod 2 = 1
                      then forE [0..<(w + 1) div 2] (\<lambda>j.
                             assign_pair pars (H div 2, off + j)
                               (H div 2, off + (w - j - 1))) st
                      else Inr st)
          = Inr (m\<lparr>entries := E2\<rparr>, ic + w * (H div 2) + (if H mod 2 = 1 then (w + 1) div 2 else 0))"
      unfolding h_def [symmetric] using True block center by (simp add: ic1_def)
    with E2_frame E2_mirror show ?thesis
      by (intro exI [of _ "m\<lparr>entries := E2\<rparr>"]) simp
  qed
qed

lemma forE_cong:
  assumes "\<And>k s. k \<in> set xs \<Longrightarrow> f k s = g k s"
  shows "forE xs f s = forE xs g s"
  using assms by (induction xs arbitrary: s) (auto simp: bindE_def split: sum.splits)

lemma bindE_assoc: "bindE (bindE a f) g = bindE a (\<lambda>x. bindE (f x) g)"
  by (cases a) simp_all

lemma symmetric_sensor_count:
  assumes "bilateral_symmetry cfg"
  shows "num_sensor_weights cfg
         = num_interneurons cfg * (num_rays cfg div 2)
           + (if num_rays cfg mod 2 = 1 then (num_interneurons cfg + 1) div 2 else 0)"
proof (cases "num_rays cfg mod 2 = 1")
  case True
  then have "(num_rays cfg - 1) div 2 = num_rays cfg div 2" by presburger
  with True assms show ?thesis by (simp add: num_sensor_weights_def mult.commute)
next
  case False
  with assms show ?thesis by (simp add: num_sensor_weights_def mult.commute)
qed

lemma symmetric_circuit_count:
  assumes "bilateral_symmetry cfg"
  shows "num_circuit_weights cfg
         = num_interneurons cfg * (num_interneurons cfg div 2)
           + (if num_interneurons cfg mod 2 = 1 then (num_interneurons cfg + 1) div 2 else 0)
           + 2 * (num_interneurons cfg div 2)
           + (if num_interneurons cfg mod 2 = 1 then (2 + 1) div 2 else 0)"
proof -
  define k where "k = num_interneurons cfg div 2"
  have side: "k * (k - 1) + k = k * k" by (cases k) simp_all
  show ?thesis
  proof (cases "num_interneurons cfg mod 2 = 1")
    case True
    then have I: "num_interneurons cfg = 2 * k + 1" unfolding k_def by presburger
    have "(2 * k + 1 + 1) div 2 = k + 1" "(2 * k + 1) div 2 = k" "(2 * k + 1) mod 2 = 1"
      by presburger+
    with assms show ?thesis
      unfolding num_circuit_weights_def Let_def I
      by (simp add: power2_eq_square algebra_simps)
  next
    case False
    then have I: "num_interneurons cfg = 2 * k" unfolding k_def by presburger
    have "(2 * k + 1) div 2 = k" "(2 * k) div 2 = k" "(2 * k) mod 2 \<noteq> 1"
      by presburger+
    with assms side show ?thesis
      unfolding num_circuit_weights_def Let_def I
      by (simp add: power2_eq_square algebra_simps)
  qed
qed

lemma mirrored_fill_origin:
  assumes rows: "H \<le> shape0 m" and cols: "w \<le> shape1 m"
    and len: "w * (H div 2) + (if H mod 2 = 1 then (w + 1) div 2 else 0) \<le> length pars"
  shows "\<exists>m'. bindE (forE [0..<H div 2] (\<lambda>i. forE [0..<w] (\<lambda>j.
                  assign_pair pars (i, j) (H - i - 1, w - j - 1))) (m, 0))
               (\<lambda>st. if H mod 2 = 1
                      then forE [0..<(w + 1) div 2] (\<lambda>j.
                             assign_pair pars (H div 2, j) (H div 2, w - j - 1)) st
                      else Inr st)
              = Inr (m', w * (H div 2) + (if H mod 2 = 1 then (w + 1) div 2 else 0))
           \<and> shape0 m' = shape0 m \<and> shape1 m' = shape1 m
           \<and> (\<forall>r c. r < H \<and> c < w \<longrightarrow> entries m' r c = entries m' (H - 1 - r) (w - 1 - c))
           \<and> (\<forall>r c. \<not> (r < H \<and> c < w) \<longrightarrow> entries m' r c = entries m r c)"
proof -
  have c: "0 + w \<le> shape1 m" and l: "0 + w * (H div 2)
      + (if H mod 2 = 1 then (w + 1) div 2 else 0) \<le> length pars"
    using cols len by simp_all
  show ?thesis
    using mirrored_fill [OF rows c l] by (simp cong: if_cong)
qed

lemma symmetric_sensor_weights_result:
  assumes sym: "bilateral_symmetry cfg"
    and shp: "shape0 m = num_rays cfg" "shape1 m = num_interneurons cfg"
    and len: "length pars = num_sensor_weights cfg"
  shows "\<exists>m'. symmetric_sensor_weights cfg pars m = Inr (m', num_sensor_weights cfg)
           \<and> shape0 m' = num_rays cfg \<and> shape1 m' = num_interneurons cfg
           \<and> (\<forall>i<num_rays cfg. \<forall>j<num_interneurons cfg.
                 entries m' i j
                 = entries m' (num_rays cfg - 1 - i) (num_interneurons cfg - 1 - j))"
proof -
  let ?R = "num_rays cfg" and ?I = "num_interneurons cfg"
  have l: "?I * (?R div 2) + (if ?R mod 2 = 1 then (?I + 1) div 2 else 0) \<le> length pars"
    using len symmetric_sensor_count [OF sym] by simp
  have r: "?R \<le> shape0 m" and c: "?I \<le> shape1 m" using shp by simp_all
  from mirrored_fill_origin [OF r c l]
  show ?thesis
    unfolding symmetric_sensor_weights_def symmetric_sensor_count [OF sym] shp
    by blast
qed

lemma symmetric_circuit_weights_result:
  assumes sym: "bilateral_symmetry cfg"
    and shp: "shape0 m = circuit_size cfg" "shape1 m = circuit_size cfg"
    and len: "length pars = num_circuit_weights cfg"
  shows "\<exists>m'. symmetric_circuit_weights cfg pars m = Inr (m', num_circuit_weights cfg)
           \<and> shape0 m' = circuit_size cfg \<and> shape1 m' = circuit_size cfg
           \<and> (\<forall>i<num_interneurons cfg. \<forall>j<num_interneurons cfg.
                 entries m' i j
                 = entries m' (num_interneurons cfg - 1 - i) (num_interneurons cfg - 1 - j))
           \<and> (\<forall>i<num_interneurons cfg. \<forall>k<2.
                 entries m' i (num_interneurons cfg + k)
                 = entries m' (num_interneurons cfg - 1 - i) (circuit_size cfg - 1 - k))"
proof -
  let ?I = "num_interneurons cfg"
  define ic1 where "ic1 = ?I * (?I div 2) + (if ?I mod 2 = 1 then (?I + 1) div 2 else 0)"
  note cnt = symmetric_circuit_count [OF sym, folded ic1_def]
  have r: "?I \<le> shape0 m" and c: "?I \<le> shape1 m" using shp by (simp_all add: circuit_size_def)
  have l1: "?I * (?I div 2) + (if ?I mod 2 = 1 then (?I + 1) div 2 else 0) \<le> length pars"
    using len cnt by (simp add: ic1_def)
  from mirrored_fill_origin [OF r c l1, folded ic1_def]
  obtain m1 where m1:
    "bindE (forE [0..<?I div 2] (\<lambda>i. forE [0..<?I] (\<lambda>j.
                  assign_pair pars (i, j) (?I - i - 1, ?I - j - 1))) (m, 0))
               (\<lambda>st. if ?I mod 2 = 1
                      then forE [0..<(?I + 1) div 2] (\<lambda>j.
                             assign_pair pars (?I div 2, j) (?I div 2, ?I - j - 1)) st
                      else Inr st)
              = Inr (m1, ic1)
           \<and> shape0 m1 = shape0 m \<and> shape1 m1 = shape1 m
           \<and> (\<forall>r c. r < ?I \<and> c < ?I \<longrightarrow> entries m1 r c = entries m1 (?I - 1 - r) (?I - 1 - c))
           \<and> (\<forall>r c. \<not> (r < ?I \<and> c < ?I) \<longrightarrow> entries m1 r c = entries m r c)" ..
  note m1_run = m1 [THEN conjunct1]
    and m1_s0 = m1 [THEN conjunct2, THEN conjunct1]
    and m1_s1 = m1 [THEN conjunct2, THEN conjunct2, THEN conjunct1]
    and m1_mirror = m1 [THEN conjunct2, THEN conjunct2, THEN conjunct2, THEN conjunct1, rule_format]
  have r2: "?I \<le> shape0 m1" and c2: "?I + 2 \<le> shape1 m1"
    using m1_s0 m1_s1 shp by (simp_all add: circuit_size_def)
  have l2: "ic1 + 2 * (?I div 2) + (if ?I mod 2 = 1 then (2 + 1) div 2 else 0) \<le> length pars"
    using len cnt by simp
  from mirrored_fill [OF r2 c2 l2]
  obtain m2 where m2:
    "bindE (forE [0..<?I div 2] (\<lambda>i. forE [0..<2] (\<lambda>j.
                  assign_pair pars (i, ?I + j) (?I - i - 1, ?I + (2 - j - 1)))) (m1, ic1))
               (\<lambda>st. if ?I mod 2 = 1
                      then forE [0..<(2 + 1) div 2] (\<lambda>j.
                             assign_pair pars (?I div 2, ?I + j)
                               (?I div 2, ?I + (2 - j - 1))) st
                      else Inr st)
              = Inr (m2, ic1 + 2 * (?I div 2) + (if ?I mod 2 = 1 then (2 + 1) div 2 else 0))
           \<and> shape0 m2 = shape0 m1 \<and> shape1 m2 = shape1 m1
           \<and> (\<forall>r c. r < ?I \<and> ?I \<le> c \<and> c < ?I + 2
                  \<longrightarrow> entries m2 r c = entries m2 (?I - 1 - r) (?I + (2 - 1 - (c - ?I))))
           \<and> (\<forall>r c. \<not> (r < ?I \<and> ?I \<le> c \<and> c < ?I + 2)
                  \<longrightarrow> entries m2 r c = entries m1 r c)" ..
  note m2_run = m2 [THEN conjunct1]
    and m2_s0 = m2 [THEN conjunct2, THEN conjunct1]
    and m2_s1 = m2 [THEN conjunct2, THEN conjunct2, THEN conjunct1]
    and m2_mirror = m2 [THEN conjunct2, THEN conjunct2, THEN conjunct2, THEN conjunct1, rule_format]
    and m2_frame = m2 [THEN conjunct2, THEN conjunct2, THEN conjunct2, THEN conjunct2, rule_format]
  have motor_loops: "forE [0..<?I div 2] (\<lambda>i. forE [0..<2] (\<lambda>j.
                  assign_pair pars (i, ?I + j) (?I - i - 1, circuit_size cfg - j - 1))) st
        = forE [0..<?I div 2] (\<lambda>i. forE [0..<2] (\<lambda>j.
                  assign_pair pars (i, ?I + j) (?I - i - 1, ?I + (2 - j - 1)))) st" for st
  proof (rule forE_cong)
    fix k s
    show "forE [0..<2] (\<lambda>j. assign_pair pars (k, ?I + j) (?I - k - 1, circuit_size cfg - j - 1)) s
          = forE [0..<2] (\<lambda>j. assign_pair pars (k, ?I + j) (?I - k - 1, ?I + (2 - j - 1))) s"
      by (rule forE_cong) (simp add: circuit_size_def)
  qed
  have one: "[0..<1] = [0..<(2 + 1) div 2]" by simp
  have motor_center: "forE [0..<1] (\<lambda>j.
                  assign_pair pars (?I div 2, ?I + j) (?I div 2, circuit_size cfg - j - 1)) st
        = forE [0..<(2 + 1) div 2] (\<lambda>j.
                  assign_pair pars (?I div 2, ?I + j) (?I div 2, ?I + (2 - j - 1))) st" for st
    unfolding one by (rule forE_cong) (simp add: circuit_size_def)
  have run: "symmetric_circuit_weights cfg pars m
             = Inr (m2, ic1 + 2 * (?I div 2) + (if ?I mod 2 = 1 then (2 + 1) div 2 else 0))"
    unfolding symmetric_circuit_weights_def motor_loops motor_center
    unfolding bindE_assoc [symmetric] m1_run bindE_Inr
    by (rule m2_run)
  have block: "entries m2 i j = entries m2 (?I - 1 - i) (?I - 1 - j)"
    if ij: "i < ?I" "j < ?I" for i j
  proof -
    from ij have a: "entries m2 i j = entries m1 i j" by (intro m2_frame) simp
    from ij have b: "entries m2 (?I - 1 - i) (?I - 1 - j) = entries m1 (?I - 1 - i) (?I - 1 - j)"
      by (intro m2_frame) simp
    from ij have "entries m1 i j = entries m1 (?I - 1 - i) (?I - 1 - j)"
      by (intro m1_mirror) simp
    with a b show ?thesis by simp
  qed
  have motor: "entries m2 i (?I + k) = entries m2 (?I - 1 - i) (circuit_size cfg - 1 - k)"
    if ik: "i < ?I" "k < 2" for i k
  proof -
    from ik have e: "?I + (2 - 1 - (?I + k - ?I)) = circuit_size cfg - 1 - k"
      by (simp add: circuit_size_def)
    from ik have "entries m2 i (?I + k) = entries m2 (?I - 1 - i) (?I + (2 - 1 - (?I + k - ?I)))"
      by (intro m2_mirror) simp
    then show ?thesis unfolding e .
  qed
  have s2: "shape0 m2 = circuit_size cfg" "shape1 m2 = circuit_size cfg"
    using m1_s0 m1_s1 m2_s0 m2_s1 shp by simp_all
  have "symmetric_circuit_weights cfg pars m = Inr (m2, num_circuit_weights cfg)"
    unfolding run cnt ..
  with s2 block motor show ?thesis by blast
qed

lemma symmetric_vector_result:
  assumes len: "length pars = (num_interneurons cfg + 1) div 2 + 1"
  shows "\<exists>v. symmetric_vector cfg pars = Inr v \<and> length v = circuit_size cfg
           \<and> (\<forall>i<num_interneurons cfg. v ! i = v ! (num_interneurons cfg - 1 - i))
           \<and> v ! (circuit_size cfg - 2) = last pars
           \<and> v ! (circuit_size cfg - 1) = last pars"
proof -
  let ?I = "num_interneurons cfg" and ?C = "circuit_size cfg"
  define hw where "hw = (?I + 1) div 2"
  have hw: "hw \<le> ?I" "?I \<le> 2 * hw" "?C = ?I + 2" unfolding hw_def circuit_size_def by linarith+
  let ?P = "\<lambda>k v. length v = ?C \<and> (\<forall>i<k. v ! i = pars ! i \<and> v ! (?I - 1 - i) = pars ! i)"
  let ?body = "\<lambda>i v. bindE (getitem1 pars i) (\<lambda>a.
              bindE (setitem1 v i a) (\<lambda>v1.
              bindE (getitem1 pars i) (\<lambda>b.
              setitem1 v1 (?I - i - 1) b)))"
  have "\<exists>v. forE [0..<hw] ?body (replicate ?C 0) = Inr v \<and> ?P hw v"
  proof (rule forE_upt_invariant)
    show "0 \<le> hw" by simp
    show "?P 0 (replicate ?C 0)" by simp
  next
    fix k and t :: "real list"
    assume k: "0 \<le> k" "k < hw" and t: "?P k t"
    from k hw have kI: "2 * k < ?I" "k < ?I" "k < ?C" "?I - k - 1 < ?C" "k \<le> ?I - k - 1"
      unfolding hw_def by linarith+
    from k len have kp: "k < length pars" by (simp add: hw_def)
    let ?t' = "t[k := pars ! k, ?I - k - 1 := pars ! k]"
    have run: "?body k t = Inr ?t'"
      using kp kI t by (simp add: getitem1_def setitem1_def)
    have "?P (Suc k) ?t'"
    proof (intro conjI allI impI)
      show "length ?t' = ?C" using t by simp
    next
      fix i assume i: "i < Suc k"
      show "?t' ! i = pars ! i"
      proof (cases "i = k")
        case True
        with kI t show ?thesis by (simp add: nth_list_update)
      next
        case False
        with i kI have "i < k" "i \<noteq> ?I - k - 1" by linarith+
        with t False show ?thesis by simp
      qed
    next
      fix i assume i: "i < Suc k"
      show "?t' ! (?I - 1 - i) = pars ! i"
      proof (cases "i = k")
        case True
        with kI t show ?thesis by simp
      next
        case False
        with i kI have "i < k" "?I - 1 - i \<noteq> ?I - k - 1" "?I - 1 - i \<noteq> k" by linarith+
        with t show ?thesis by simp
      qed
    qed
    with run show "\<exists>t'. ?body k t = Inr t' \<and> ?P (Suc k) t'" by blast
  qed
  then obtain v where v: "forE [0..<hw] ?body (replicate ?C 0) = Inr v" "?P hw v" by blast
  from len have ne: "1 \<le> length pars" "pars \<noteq> []" by auto
  then have lst: "getitem_neg pars 1 = Inr (last pars)"
    by (simp add: getitem_neg_def last_conv_nth)
  let ?v' = "v[?C - 2 := last pars, ?C - 1 := last pars]"
  have vlen: "length v = ?C" using v(2) by simp
  have run: "symmetric_vector cfg pars = Inr ?v'"
    unfolding symmetric_vector_def hw_def [symmetric] v(1)
    using hw vlen lst by (simp add: setitem_neg_def)
  have low: "?v' ! i = v ! i" if "i < ?I" for i
    using that hw by simp
  have mirror: "?v' ! i = ?v' ! (?I - 1 - i)" if i: "i < ?I" for i
  proof (cases "i < hw")
    case True
    with v(2) have "v ! i = pars ! i" "v ! (?I - 1 - i) = pars ! i" by blast+
    then have "v ! i = v ! (?I - 1 - i)" by simp
    with i low [of i] low [of "?I - 1 - i"] show ?thesis by simp
  next
    case False
    with i hw have j: "?I - 1 - i < hw" "?I - 1 - (?I - 1 - i) = i" by linarith+
    with v(2) have "v ! (?I - 1 - i) = pars ! (?I - 1 - i)"
      "v ! (?I - 1 - (?I - 1 - i)) = pars ! (?I - 1 - i)" by blast+
    with j have "v ! i = v ! (?I - 1 - i)" by simp
    with i low [of i] low [of "?I - 1 - i"] show ?thesis by simp
  qed
  have motor: "?v' ! (?C - 2) = last pars" "?v' ! (?C - 1) = last pars"
    using hw vlen by simp_all
  have "length ?v' = ?C" using vlen by simp
  with run mirror motor show ?thesis by blast
qed

lemma symmetric_decode:
  assumes sym: "bilateral_symmetry cfg"
    and len: "length x = num_parameters cfg"
    and sws: "shape0 (sensor_weights ns) = num_rays cfg"
             "shape1 (sensor_weights ns) = num_interneurons cfg"
    and cws: "shape0 (circuit_weights ns) = circuit_size cfg"
             "shape1 (circuit_weights ns) = circuit_size cfg"
    and srch: "max_search_value cfg \<noteq> min_search_value cfg"
  shows "\<exists>sensor_pars circuit_pars bias_pars tau_pars sw cw b t.
      rescaled_segment cfg (take (num_sensor_weights cfg) x)
        (min_weight cfg) (max_weight cfg) = Inr sensor_pars
    \<and> length sensor_pars = num_sensor_weights cfg
    \<and> symmetric_sensor_weights cfg sensor_pars (sensor_weights ns)
        = Inr (sw, num_sensor_weights cfg)
    \<and> rescaled_segment cfg
          (drop (num_sensor_weights cfg)
             (take (num_sensor_weights cfg + num_circuit_weights cfg) x))
          (min_weight cfg) (max_weight cfg) = Inr circuit_pars
    \<and> length circuit_pars = num_circuit_weights cfg
    \<and> symmetric_circuit_weights cfg circuit_pars (circuit_weights ns)
        = Inr (cw, num_circuit_weights cfg)
    \<and> rescaled_segment cfg
          (drop (num_sensor_weights cfg + num_circuit_weights cfg)
             (take (num_sensor_weights cfg + num_circuit_weights cfg
                      + (circuit_size cfg + 1) div 2) x))
          (min_bias cfg) (max_bias cfg) = Inr bias_pars
    \<and> length bias_pars = (num_interneurons cfg + 1) div 2 + 1
    \<and> symmetric_vector cfg bias_pars = Inr b
    \<and> rescaled_segment cfg
          (drop (num_sensor_weights cfg + num_circuit_weights cfg
                   + (circuit_size cfg + 1) div 2) x)
          (min_tau cfg) (max_tau cfg) = Inr tau_pars
    \<and> length tau_pars = (num_interneurons cfg + 1) div 2 + 1
    \<and> symmetric_vector cfg tau_pars = Inr t
    \<and> map_search_parameters cfg x ns
        = Inr (ns\<lparr>sensor_weights := sw, circuit_weights := cw,
                  biases := b, time_constants := t\<rparr>)
    \<and> shape0 sw = num_rays cfg \<and> shape1 sw = num_interneurons cfg
    \<and> (\<forall>i<num_rays cfg. \<forall>j<num_interneurons cfg.
          entries sw i j = entries sw (num_rays cfg - 1 - i) (num_interneurons cfg - 1 - j))
    \<and> shape0 cw = circuit_size cfg \<and> shape1 cw = circuit_size cfg
    \<and> (\<forall>i<num_interneurons cfg. \<forall>j<num_interneurons cfg.
          entries cw i j
          = entries cw (num_interneurons cfg - 1 - i) (num_interneurons cfg - 1 - j))
    \<and> (\<forall>i<num_interneurons cfg. \<forall>k<2.
          entries cw i (num_interneurons cfg + k)
          = entries cw (num_interneurons cfg - 1 - i) (circuit_size cfg - 1 - k))
    \<and> length b = circuit_size cfg
    \<and> (\<forall>i<num_interneurons cfg. b ! i = b ! (num_interneurons cfg - 1 - i))
    \<and> b ! (circuit_size cfg - 2) = last bias_pars
    \<and> b ! (circuit_size cfg - 1) = last bias_pars
    \<and> length t = circuit_size cfg
    \<and> (\<forall>i<num_interneurons cfg. t ! i = t ! (num_interneurons cfg - 1 - i))
    \<and> t ! (circuit_size cfg - 2) = last tau_pars
    \<and> t ! (circuit_size cfg - 1) = last tau_pars"
proof -
  let ?I = "num_interneurons cfg"
  let ?nsw = "num_sensor_weights cfg" and ?ncw = "num_circuit_weights cfg"
  let ?hb = "(circuit_size cfg + 1) div 2"
  have hb: "?hb = (?I + 1) div 2 + 1" by (simp add: circuit_size_def)
  have np: "length x = ?nsw + ?ncw + ?hb + ?hb"
    unfolding hb using len sym by (simp add: num_parameters_def)
  obtain sensor_pars where sp: "rescaled_segment cfg (take ?nsw x)
               (min_weight cfg) (max_weight cfg) = Inr sensor_pars"
    using rescaled_segment_map [OF srch] by blast
  obtain circuit_pars where cp: "rescaled_segment cfg
               (drop ?nsw (take (?nsw + ?ncw) x))
               (min_weight cfg) (max_weight cfg) = Inr circuit_pars"
    using rescaled_segment_map [OF srch] by blast
  obtain bias_pars where bp: "rescaled_segment cfg
               (drop (?nsw + ?ncw) (take (?nsw + ?ncw + ?hb) x))
               (min_bias cfg) (max_bias cfg) = Inr bias_pars"
    using rescaled_segment_map [OF srch] by blast
  obtain tau_pars where tp: "rescaled_segment cfg (drop (?nsw + ?ncw + ?hb) x)
               (min_tau cfg) (max_tau cfg) = Inr tau_pars"
    using rescaled_segment_map [OF srch] by blast
  have lsp: "length sensor_pars = ?nsw"
    using rescaled_segment_elementwise [OF sp] np by simp
  have lcp: "length circuit_pars = ?ncw"
    using rescaled_segment_elementwise [OF cp] np by simp
  have lbp: "length bias_pars = (?I + 1) div 2 + 1"
    using rescaled_segment_elementwise [OF bp] np hb by simp
  have ltp: "length tau_pars = (?I + 1) div 2 + 1"
    using rescaled_segment_elementwise [OF tp] np hb by simp
  from symmetric_sensor_weights_result [OF sym sws lsp]
  obtain sw where sw: "symmetric_sensor_weights cfg sensor_pars (sensor_weights ns)
             = Inr (sw, ?nsw)
           \<and> shape0 sw = num_rays cfg \<and> shape1 sw = ?I
           \<and> (\<forall>i<num_rays cfg. \<forall>j<?I.
                 entries sw i j = entries sw (num_rays cfg - 1 - i) (?I - 1 - j))" ..
  from symmetric_circuit_weights_result [OF sym cws lcp]
  obtain cw where cw: "symmetric_circuit_weights cfg circuit_pars (circuit_weights ns)
             = Inr (cw, ?ncw)
           \<and> shape0 cw = circuit_size cfg \<and> shape1 cw = circuit_size cfg
           \<and> (\<forall>i<?I. \<forall>j<?I. entries cw i j = entries cw (?I - 1 - i) (?I - 1 - j))
           \<and> (\<forall>i<?I. \<forall>k<2.
                 entries cw i (?I + k) = entries cw (?I - 1 - i) (circuit_size cfg - 1 - k))" ..
  from symmetric_vector_result [OF lbp]
  obtain b where b: "symmetric_vector cfg bias_pars = Inr b \<and> length b = circuit_size cfg
           \<and> (\<forall>i<?I. b ! i = b ! (?I - 1 - i))
           \<and> b ! (circuit_size cfg - 2) = last bias_pars
           \<and> b ! (circuit_size cfg - 1) = last bias_pars" ..
  from symmetric_vector_result [OF ltp]
  obtain t where t: "symmetric_vector cfg tau_pars = Inr t \<and> length t = circuit_size cfg
           \<and> (\<forall>i<?I. t ! i = t ! (?I - 1 - i))
           \<and> t ! (circuit_size cfg - 2) = last tau_pars
           \<and> t ! (circuit_size cfg - 1) = last tau_pars" ..
  have run: "map_search_parameters cfg x ns
        = Inr (ns\<lparr>sensor_weights := sw, circuit_weights := cw,
                  biases := b, time_constants := t\<rparr>)"
    unfolding map_search_parameters_def Let_def
    using sym sp cp bp tp conjunct1 [OF sw] conjunct1 [OF cw] conjunct1 [OF b]
          conjunct1 [OF t]
    by (simp add: set_biases_def set_time_constants_def)
  show ?thesis
    apply (rule exI [of _ sensor_pars], rule exI [of _ circuit_pars])
    apply (rule exI [of _ bias_pars], rule exI [of _ tau_pars])
    apply (rule exI [of _ sw], rule exI [of _ cw], rule exI [of _ b], rule exI [of _ t])
    apply (intro conjI)
    apply (rule sp lsp cp lcp bp lbp tp ltp run conjunct1 [OF sw] conjunct1 [OF cw]
             conjunct1 [OF b] conjunct1 [OF t]
             sw [THEN conjunct2, THEN conjunct1]
             sw [THEN conjunct2, THEN conjunct2, THEN conjunct1]
             sw [THEN conjunct2, THEN conjunct2, THEN conjunct2]
             cw [THEN conjunct2, THEN conjunct1]
             cw [THEN conjunct2, THEN conjunct2, THEN conjunct1]
             cw [THEN conjunct2, THEN conjunct2, THEN conjunct2, THEN conjunct1]
             cw [THEN conjunct2, THEN conjunct2, THEN conjunct2, THEN conjunct2]
             b [THEN conjunct2, THEN conjunct1]
             b [THEN conjunct2, THEN conjunct2, THEN conjunct1]
             b [THEN conjunct2, THEN conjunct2, THEN conjunct2, THEN conjunct1]
             b [THEN conjunct2, THEN conjunct2, THEN conjunct2, THEN conjunct2]
             t [THEN conjunct2, THEN conjunct1]
             t [THEN conjunct2, THEN conjunct2, THEN conjunct1]
             t [THEN conjunct2, THEN conjunct2, THEN conjunct2, THEN conjunct1]
             t [THEN conjunct2, THEN conjunct2, THEN conjunct2, THEN conjunct2])+
    done
qed

text \<open>
  Claim C5. In bilateral-symmetric mode, on a genome of \<open>num_parameters\<close> entries, the
  decoder succeeds and the decoded parameters are mirror-symmetric with equal values:
  sensor weights under \<open>(i, j) \<leftrightarrow> (R - 1 - i, I - 1 - j)\<close>, the interneuron block
  of the internal weights under \<open>(i, j) \<leftrightarrow> (I - 1 - i, I - 1 - j)\<close>, the motor
  columns under \<open>(i, I + k) \<leftrightarrow> (I - 1 - i, circuit_size - 1 - k)\<close>, biases and time
  constants under \<open>i \<leftrightarrow> I - 1 - i\<close>; both motor slots of each vector hold the last
  free value of its segment.
\<close>

theorem symmetric_mirror_identities:
  assumes sym: "bilateral_symmetry cfg"
    and len: "length x = num_parameters cfg"
    and sws: "shape0 (sensor_weights ns) = num_rays cfg"
             "shape1 (sensor_weights ns) = num_interneurons cfg"
    and cws: "shape0 (circuit_weights ns) = circuit_size cfg"
             "shape1 (circuit_weights ns) = circuit_size cfg"
    and srch: "max_search_value cfg \<noteq> min_search_value cfg"
  shows "\<exists>ns' bias_pars tau_pars.
      map_search_parameters cfg x ns = Inr ns'
    \<and> shape0 (sensor_weights ns') = num_rays cfg
    \<and> shape1 (sensor_weights ns') = num_interneurons cfg
    \<and> (\<forall>i<num_rays cfg. \<forall>j<num_interneurons cfg.
          entries (sensor_weights ns') i j
          = entries (sensor_weights ns') (num_rays cfg - 1 - i) (num_interneurons cfg - 1 - j))
    \<and> shape0 (circuit_weights ns') = circuit_size cfg
    \<and> shape1 (circuit_weights ns') = circuit_size cfg
    \<and> (\<forall>i<num_interneurons cfg. \<forall>j<num_interneurons cfg.
          entries (circuit_weights ns') i j
          = entries (circuit_weights ns')
              (num_interneurons cfg - 1 - i) (num_interneurons cfg - 1 - j))
    \<and> (\<forall>i<num_interneurons cfg. \<forall>k<2.
          entries (circuit_weights ns') i (num_interneurons cfg + k)
          = entries (circuit_weights ns')
              (num_interneurons cfg - 1 - i) (circuit_size cfg - 1 - k))
    \<and> length (biases ns') = circuit_size cfg
    \<and> (\<forall>i<num_interneurons cfg.
          biases ns' ! i = biases ns' ! (num_interneurons cfg - 1 - i))
    \<and> rescaled_segment cfg
          (drop (num_sensor_weights cfg + num_circuit_weights cfg)
             (take (num_sensor_weights cfg + num_circuit_weights cfg
                      + (circuit_size cfg + 1) div 2) x))
          (min_bias cfg) (max_bias cfg) = Inr bias_pars
    \<and> biases ns' ! (circuit_size cfg - 2) = last bias_pars
    \<and> biases ns' ! (circuit_size cfg - 1) = last bias_pars
    \<and> length (time_constants ns') = circuit_size cfg
    \<and> (\<forall>i<num_interneurons cfg.
          time_constants ns' ! i = time_constants ns' ! (num_interneurons cfg - 1 - i))
    \<and> rescaled_segment cfg
          (drop (num_sensor_weights cfg + num_circuit_weights cfg
                   + (circuit_size cfg + 1) div 2) x)
          (min_tau cfg) (max_tau cfg) = Inr tau_pars
    \<and> time_constants ns' ! (circuit_size cfg - 2) = last tau_pars
    \<and> time_constants ns' ! (circuit_size cfg - 1) = last tau_pars"
proof -
  from symmetric_decode [OF assms]
  obtain sensor_pars circuit_pars bias_pars tau_pars sw cw b t where
    bp: "rescaled_segment cfg
          (drop (num_sensor_weights cfg + num_circuit_weights cfg)
             (take (num_sensor_weights cfg + num_circuit_weights cfg
                      + (circuit_size cfg + 1) div 2) x))
          (min_bias cfg) (max_bias cfg) = Inr bias_pars"
    and tp: "rescaled_segment cfg
          (drop (num_sensor_weights cfg + num_circuit_weights cfg
                   + (circuit_size cfg + 1) div 2) x)
          (min_tau cfg) (max_tau cfg) = Inr tau_pars"
    and run: "map_search_parameters cfg x ns
        = Inr (ns\<lparr>sensor_weights := sw, circuit_weights := cw,
                  biases := b, time_constants := t\<rparr>)"
    and sw: "shape0 sw = num_rays cfg" "shape1 sw = num_interneurons cfg"
      "\<forall>i<num_rays cfg. \<forall>j<num_interneurons cfg.
          entries sw i j = entries sw (num_rays cfg - 1 - i) (num_interneurons cfg - 1 - j)"
    and cw: "shape0 cw = circuit_size cfg" "shape1 cw = circuit_size cfg"
      "\<forall>i<num_interneurons cfg. \<forall>j<num_interneurons cfg.
          entries cw i j
          = entries cw (num_interneurons cfg - 1 - i) (num_interneurons cfg - 1 - j)"
      "\<forall>i<num_interneurons cfg. \<forall>k<2.
          entries cw i (num_interneurons cfg + k)
          = entries cw (num_interneurons cfg - 1 - i) (circuit_size cfg - 1 - k)"
    and b: "length b = circuit_size cfg"
      "\<forall>i<num_interneurons cfg. b ! i = b ! (num_interneurons cfg - 1 - i)"
      "b ! (circuit_size cfg - 2) = last bias_pars"
      "b ! (circuit_size cfg - 1) = last bias_pars"
    and t: "length t = circuit_size cfg"
      "\<forall>i<num_interneurons cfg. t ! i = t ! (num_interneurons cfg - 1 - i)"
      "t ! (circuit_size cfg - 2) = last tau_pars"
      "t ! (circuit_size cfg - 1) = last tau_pars"
    by - (elim exE conjE, rule that, assumption+)
  let ?ns' = "ns\<lparr>sensor_weights := sw, circuit_weights := cw, biases := b, time_constants := t\<rparr>"
  have sel: "sensor_weights ?ns' = sw" "circuit_weights ?ns' = cw" "biases ?ns' = b"
    "time_constants ?ns' = t" by simp_all
  show ?thesis
    apply (rule exI [of _ ?ns'], rule exI [of _ bias_pars], rule exI [of _ tau_pars])
    unfolding sel
    apply (intro conjI)
    apply (rule run bp tp sw cw b t)+
    done
qed



lemma sym_config_counts:
  "num_sensor_weights sym_config = 2" "num_circuit_weights sym_config = 2"
  "circuit_size sym_config = 3" "num_parameters sym_config = 8"
  "num_rays sym_config = 3" "num_interneurons sym_config = 1"
  "bilateral_symmetry sym_config"
  "max_search_value sym_config \<noteq> min_search_value sym_config"
  by (simp_all add: num_sensor_weights_def num_circuit_weights_def circuit_size_def
        num_parameters_def sym_config_def parameter_defaults_def)

lemma sym_segments:
  "rescaled_segment sym_config (take 2 sym_genome)
     (min_weight sym_config) (max_weight sym_config) = Inr [-16, 16]"
  "rescaled_segment sym_config (drop 2 (take (2 + 2) sym_genome))
     (min_weight sym_config) (max_weight sym_config) = Inr [0, 16]"
  "rescaled_segment sym_config (drop (2 + 2) (take (2 + 2 + (3 + 1) div 2) sym_genome))
     (min_bias sym_config) (max_bias sym_config) = Inr [-16, 16]"
  "rescaled_segment sym_config (drop (2 + 2 + (3 + 1) div 2) sym_genome)
     (min_tau sym_config) (max_tau sym_config) = Inr [30, 1]"
  by (simp_all add: rescaled_segment_def periodic_boundary_conditions_array_def
        periodic_boundary_conditions_def py_mod_def rescale_parameter_array_def
        sym_config_def sym_genome_def parameter_defaults_def)

lemma sym_hypotheses:
  "bilateral_symmetry sym_config"
  "length sym_genome = num_parameters sym_config"
  "shape0 (sensor_weights sym_controller) = num_rays sym_config"
  "shape1 (sensor_weights sym_controller) = num_interneurons sym_config"
  "shape0 (circuit_weights sym_controller) = circuit_size sym_config"
  "shape1 (circuit_weights sym_controller) = circuit_size sym_config"
  "max_search_value sym_config \<noteq> min_search_value sym_config"
  by (simp_all add: sym_config_counts sym_genome_def sym_controller_def zeros_def)

theorem symmetric_mirror_identities_witness:
  "bilateral_symmetry sym_config
   \<and> length sym_genome = num_parameters sym_config
   \<and> shape0 (sensor_weights sym_controller) = num_rays sym_config
   \<and> shape1 (sensor_weights sym_controller) = num_interneurons sym_config
   \<and> shape0 (circuit_weights sym_controller) = circuit_size sym_config
   \<and> shape1 (circuit_weights sym_controller) = circuit_size sym_config
   \<and> max_search_value sym_config \<noteq> min_search_value sym_config
   \<and> (\<exists>ns'. map_search_parameters sym_config sym_genome sym_controller = Inr ns'
          \<and> entries (sensor_weights ns') 0 0 = entries (sensor_weights ns') 2 0
          \<and> entries (circuit_weights ns') 0 1 = entries (circuit_weights ns') 0 2
          \<and> length (biases ns') = 3
          \<and> biases ns' ! 1 = 16 \<and> biases ns' ! 2 = 16
          \<and> time_constants ns' ! 1 = 1 \<and> time_constants ns' ! 2 = 1)"
proof -
  from symmetric_mirror_identities [OF sym_hypotheses,
         unfolded sym_config_counts sym_segments]
  obtain ns' bias_pars tau_pars where
    run: "map_search_parameters sym_config sym_genome sym_controller = Inr ns'"
    and sw: "\<forall>i<3. \<forall>j<1. entries (sensor_weights ns') i j
               = entries (sensor_weights ns') (3 - 1 - i) (1 - 1 - j)"
    and cw: "\<forall>i<1. \<forall>k<2. entries (circuit_weights ns') i (1 + k)
               = entries (circuit_weights ns') (1 - 1 - i) (3 - 1 - k)"
    and b: "length (biases ns') = 3" "(Inr [-16, 16] :: py_error + real list) = Inr bias_pars"
      "biases ns' ! (3 - 2) = last bias_pars" "biases ns' ! (3 - 1) = last bias_pars"
    and t: "(Inr [30, 1] :: py_error + real list) = Inr tau_pars"
      "time_constants ns' ! (3 - 2) = last tau_pars"
      "time_constants ns' ! (3 - 1) = last tau_pars"
    by - (elim exE conjE, rule that, assumption+)
  from sw [rule_format, of 0 0] have s: "entries (sensor_weights ns') 0 0
     = entries (sensor_weights ns') 2 0" by simp
  from cw [rule_format, of 0 0] have c: "entries (circuit_weights ns') 0 1
     = entries (circuit_weights ns') 0 2" by simp
  from b have bv: "biases ns' ! 1 = 16" "biases ns' ! 2 = 16" by auto
  from t have tv: "time_constants ns' ! 1 = 1" "time_constants ns' ! 2 = 1" by auto
  from run s c b(1) bv tv sym_hypotheses show ?thesis by blast
qed


end
